theory Spec2Isabelle
  imports Complex_Main
begin

section \<open>The paddle game of \<^verbatim>\<open>src/app/page.tsx\<close>\<close>

text \<open>
  The component \<^verbatim>\<open>PaddleGame\<close> keeps its simulation state in \<^verbatim>\<open>gameRef.current\<close> and
  three pieces of React state (\<^verbatim>\<open>gameState\<close>, \<^verbatim>\<open>difficulty\<close>, \<^verbatim>\<open>gameStats\<close>). The handlers
  mutate that state; here each handler is a function from the state to the new state.

  Conventions of the embedding:
  \<^item> a JavaScript number is a \<^typ>\<open>real\<close> (positions, times, opacities), an \<^typ>\<open>int\<close> where
    the code only ever produces integers (score, points, millisecond timestamps) and a
    \<^typ>\<open>nat\<close> for the counters that start at 0 and are only incremented. Positions,
    distances and times are computed exactly (\<^verbatim>\<open>**\<close> and \<^verbatim>\<open>Math.sqrt\<close>, which give the
    distance, are only approximated by an implementation). The two computations whose
    rounding in IEEE 754 doubles shows in a result, the points that \<^verbatim>\<open>calculatePoints\<close>
    awards and the speed of a sparkle, round every operation to the nearest double
    (\<open>round_double\<close>);
  \<^item> \<^verbatim>\<open>Math.random()\<close> is a stream \<open>rnd :: nat \<Rightarrow> real\<close> given from outside; the state
    counts the calls made so far (\<open>randomCalls\<close>), and the n-th call returns \<open>rnd n\<close>;
  \<^item> every \<^verbatim>\<open>Date.now()\<close> a handler reads is an argument of the handler;
  \<^item> the canvas dimensions a handler sees (\<^verbatim>\<open>CANVAS_WIDTH\<close>, \<^verbatim>\<open>CANVAS_HEIGHT\<close>) are an
    argument of the handler (\<open>env\<close>);
  \<^item> a handler that may loop forever returns an \<open>option\<close>: \<open>None\<close> is "never returns";
  \<^item> record fields keep the source's names, with a prefix where the name is shared by two
    interfaces or would shadow a variable (\<open>x\<close>, \<open>y\<close>, \<open>id\<close>, \<open>size\<close>, \<open>text\<close>).
  Drawing on the canvas has no effect on the state and is left out; the state updates
  that \<^verbatim>\<open>draw\<close> performs while drawing are kept.
\<close>

subsection \<open>Data model\<close>

datatype GameState = Menu | Game | End

datatype Difficulty = Easy | Intermediate | Hard

datatype Size = Small | Large

text \<open>
  \<^verbatim>\<open>interface Target\<close>. \<^verbatim>\<open>velocity\<close> and \<^verbatim>\<open>createdAt\<close> are optional and tested for
  presence by the code, so they are options. \<^verbatim>\<open>direction\<close> is optional in the
  interface as well, but the only place that builds a target sets it and the only place
  that reads it uses the non-null assertion \<^verbatim>\<open>target.direction!\<close>; it is a plain field.
\<close>

record Target =
  tid :: nat
  tx :: real
  ty :: real
  radius :: real
  tsize :: Size
  velocity :: "real option"
  direction :: real
  createdAt :: "int option"

record Feedback =
  fx :: real
  fy :: real
  ftext :: string
  points :: int
  opacity :: real
  isMiss :: "bool option"

text \<open>\<^verbatim>\<open>interface Sparkle\<close>; \<^verbatim>\<open>rotation\<close> is always set and read as \<^verbatim>\<open>sparkle.rotation!\<close>.\<close>

record Sparkle =
  sx :: real
  sy :: real
  life :: real
  angle :: real
  speed :: real
  rotation :: real

record GameStats =
  finalScore :: int
  statsPerfectHits :: nat
  statsTotalHits :: nat
  statsReactionTimes :: "int list"
  averageReactionTime :: real
  mode :: Difficulty

record env =
  CANVAS_WIDTH :: real
  CANVAS_HEIGHT :: real

definition TARGET_SPAWN_Y :: "env \<Rightarrow> real" where
  "TARGET_SPAWN_Y e = CANVAS_HEIGHT e * 0.4"

definition NET_Y :: "env \<Rightarrow> real" where
  "NET_Y e = CANVAS_HEIGHT e * 0.65"

text \<open>
  The fields of \<^verbatim>\<open>gameRef.current\<close>, then the React state, then what the game-loop
  effect holds (\<^verbatim>\<open>startTime\<close>, and whether an animation frame is requested), then the
  number of \<^verbatim>\<open>Math.random()\<close> calls made so far.
\<close>

record state =
  score :: int
  timeLeft :: real
  targets :: "Target list"
  feedback :: "Feedback list"
  sparkles :: "Sparkle list"
  nextTargetId :: nat
  perfectHits :: nat
  totalHits :: nat
  mousePos :: "real \<times> real"
  reactionTimes :: "int list"
  gameState :: GameState
  difficulty :: Difficulty
  gameStats :: "GameStats option"
  startTime :: int
  frameRequested :: bool
  randomCalls :: nat

subsection \<open>\<^verbatim>\<open>addNewTarget\<close>\<close>

text \<open>
  The inner \<^verbatim>\<open>for\<close> loop of \<^verbatim>\<open>addNewTarget\<close>: \<open>True\<close> when some existing target is
  closer (on the x axis only) than the two radii plus 80, that is when \<^verbatim>\<open>validPosition\<close>
  is set to \<^verbatim>\<open>false\<close>.
\<close>

fun overlapping :: "real \<Rightarrow> real \<Rightarrow> Target list \<Rightarrow> bool" where
  "overlapping x r [] = False"
| "overlapping x r (target # rest) =
     (let distance = sqrt ((x - tx target)\<^sup>2)
      in if distance < r + radius target + 80 then True else overlapping x r rest)"

text \<open>
  The \<^verbatim>\<open>while (!validPosition)\<close> loop. Each round draws the size (one random number,
  none on easy), then the position (one random number). The loop has no bound on its
  rounds; the result is the position, radius and size found and the number of random
  calls made, or \<open>None\<close> when the loop runs forever.
\<close>

partial_function (option) placement_loop ::
  "real \<Rightarrow> Difficulty \<Rightarrow> (nat \<Rightarrow> real) \<Rightarrow> Target list \<Rightarrow> nat \<Rightarrow> (real \<times> real \<times> Size \<times> nat) option"
where
  "placement_loop width currentDifficulty rnd ts k =
     (let sz = (if currentDifficulty = Easy then Large
                else if rnd k > 0.5 then Large else Small);
          k1 = (if currentDifficulty = Easy then k else k + 1);
          r = (if sz = Large then 190 else 130);
          x = rnd k1 * (width - r * 2) + r
      in if \<not> overlapping x r ts then Some (x, r, sz, k1 + 1)
         else placement_loop width currentDifficulty rnd ts (k1 + 1))"

definition addNewTarget ::
  "env \<Rightarrow> (nat \<Rightarrow> real) \<Rightarrow> int \<Rightarrow> Difficulty option \<Rightarrow> state \<Rightarrow> state option"
where
  "addNewTarget e rnd now diff s =
     (let currentDifficulty = (case diff of Some d \<Rightarrow> d | None \<Rightarrow> difficulty s)
      in case placement_loop (CANVAS_WIDTH e) currentDifficulty rnd (targets s) (randomCalls s) of
           None \<Rightarrow> None
         | Some (x, r, sz, k) \<Rightarrow>
             (let v = (if currentDifficulty = Hard then rnd k * 1.5 + 0.5 else 0);
                  k1 = (if currentDifficulty = Hard then k + 1 else k);
                  dir = (if rnd k1 > 0.5 then 1 else - 1)
              in Some (s\<lparr>targets := targets s @
                          [\<lparr>tid = nextTargetId s, tx = x, ty = TARGET_SPAWN_Y e, radius = r,
                            tsize = sz, velocity = Some v, direction = dir,
                            createdAt = Some now\<rparr>],
                        nextTargetId := nextTargetId s + 1,
                        randomCalls := k1 + 1\<rparr>)))"

subsection \<open>\<^verbatim>\<open>initializeGame\<close> and the game-loop effect\<close>

definition initializeGame ::
  "env \<Rightarrow> (nat \<Rightarrow> real) \<Rightarrow> int \<Rightarrow> int \<Rightarrow> Difficulty \<Rightarrow> state \<Rightarrow> state option"
where
  "initializeGame e rnd now1 now2 selectedDifficulty s =
     (let s0 = s\<lparr>difficulty := selectedDifficulty, score := 0, timeLeft := 60, targets := [],
                 feedback := [], sparkles := [], nextTargetId := 0, perfectHits := 0,
                 totalHits := 0, mousePos := (0, 0), reactionTimes := []\<rparr>
      in case addNewTarget e rnd now1 (Some selectedDifficulty) s0 of
           None \<Rightarrow> None
         | Some s1 \<Rightarrow>
             (case addNewTarget e rnd now2 (Some selectedDifficulty) s1 of
                None \<Rightarrow> None
              | Some s2 \<Rightarrow> Some (s2\<lparr>gameState := Game\<rparr>)))"

text \<open>
  The effect with dependencies \<^verbatim>\<open>[gameState, difficulty]\<close>: when the state is
  \<^verbatim>\<open>'game'\<close> it reads the start time and requests the first frame; its clean-up cancels a
  requested frame.
\<close>

definition gameLoopEffect :: "int \<Rightarrow> state \<Rightarrow> state" where
  "gameLoopEffect now s =
     (if gameState s \<noteq> Game then s\<lparr>frameRequested := False\<rparr>
      else s\<lparr>startTime := now, frameRequested := True\<rparr>)"

subsection \<open>Rounding to a double\<close>

text \<open>
  The arithmetic of a JavaScript number is that of an IEEE 754 binary64: the result of
  \<^verbatim>\<open>+\<close>, \<^verbatim>\<open>-\<close>, \<^verbatim>\<open>*\<close>, \<^verbatim>\<open>/\<close> and the value of a decimal literal is the exact result
  rounded to the nearest number with 53 significant bits, a tie going to the one whose
  last bit is even. \<open>round_even\<close> rounds a real to the nearest integer in that way;
  \<open>exponent x\<close> is the binade of \<open>x\<close> (the \<open>e\<close> with \<open>2\<^sup>e \<le> \<bar>x\<bar> < 2\<^sup>e\<^sup>+\<^sup>1\<close>), not below
  -1022, where the subnormal numbers begin; \<open>round_double x\<close> rounds \<open>x\<close> to the nearest
  multiple of \<open>2\<^sup>e\<^sup>-\<^sup>5\<^sup>2\<close>. The overflow to infinity above \<open>2\<^sup>1\<^sup>0\<^sup>2\<^sup>4\<close> is left out: in a
  game the numbers rounded are at most 100.
\<close>

definition round_even :: "real \<Rightarrow> int" where
  "round_even y =
     (let f = \<lfloor>y\<rfloor>; t = y - of_int f
      in if t < 1 / 2 then f else if t > 1 / 2 then f + 1 else if even f then f else f + 1)"

definition exponent :: "real \<Rightarrow> int" where
  "exponent x = max \<lfloor>log 2 \<bar>x\<bar>\<rfloor> (- 1022)"

definition round_double :: "real \<Rightarrow> real" where
  "round_double x =
     (if x = 0 then 0
      else of_int (round_even (x * power_int 2 (52 - exponent x))) *
           power_int 2 (exponent x - 52))"

subsection \<open>\<^verbatim>\<open>calculatePoints\<close>\<close>

text \<open>
  The decimal digits of a natural number, and the string a template literal gives for an
  integer-valued number (below \<open>10\<^sup>2\<^sup>1\<close> in magnitude, where JavaScript prints all digits).
\<close>

fun digits :: "nat \<Rightarrow> string" where
  "digits n = (if n < 10 then [''0123456789'' ! n]
               else digits (n div 10) @ [''0123456789'' ! (n mod 10)])"

definition toString :: "int \<Rightarrow> string" where
  "toString n = (if n < 0 then ''-'' @ digits (nat (- n)) else digits (nat n))"

text \<open>
  \<^verbatim>\<open>calculatePoints\<close>, in the arithmetic of doubles: the quotient, the difference, the
  literal \<^verbatim>\<open>0.95\<close> and the product are each rounded. \<^verbatim>\<open>Math.floor\<close> is exact.
\<close>

definition calculatePoints :: "real \<Rightarrow> real \<Rightarrow> int \<times> string" where
  "calculatePoints distance r =
     (let accuracy = round_double (1 - round_double (distance / r))
      in if accuracy > round_double 0.95 then (100, ''PERFECT'')
         else (let pts = \<lfloor>round_double (accuracy * 100)\<rfloor> in (pts, ''+'' @ toString pts)))"

subsection \<open>\<^verbatim>\<open>handleCanvasClick\<close>\<close>

text \<open>The distance from the pointer to the centre of a target, as the click handler computes it.\<close>

abbreviation pointer_distance :: "real \<Rightarrow> real \<Rightarrow> Target \<Rightarrow> real" where
  "pointer_distance clickX clickY target \<equiv>
     sqrt ((clickX - tx target)\<^sup>2 + (clickY - ty target)\<^sup>2)"

text \<open>
  The body of \<^verbatim>\<open>if (distance <= target.radius)\<close> up to and including the splice:
  the target at index \<open>i\<close> is hit at the given distance.
\<close>

definition register_hit :: "int \<Rightarrow> nat \<Rightarrow> real \<Rightarrow> state \<Rightarrow> state" where
  "register_hit nowHit i distance s =
     (let target = targets s ! i;
          (pts, fb) = calculatePoints distance (radius target);
          reactionTime = (case createdAt target of
                            Some c \<Rightarrow> if c \<noteq> 0 then nowHit - c else 0
                          | None \<Rightarrow> 0)
      in s\<lparr>reactionTimes := reactionTimes s @ [reactionTime],
            score := score s + pts,
            totalHits := totalHits s + 1,
            perfectHits := (if fb = ''PERFECT'' then perfectHits s + 1 else perfectHits s),
            feedback := feedback s @
              [\<lparr>fx = tx target, fy = ty target, ftext = fb, points = pts, opacity = 1,
                isMiss = None\<rparr>],
            targets := take i (targets s) @ drop (Suc i) (targets s)\<rparr>)"

text \<open>
  The \<^verbatim>\<open>for\<close> loop over the targets, from the last index down to 0; the counter here is
  the source's \<open>i + 1\<close>. The result says whether a target was hit (\<^verbatim>\<open>hitTarget\<close> is only
  tested for null afterwards). A hit ends the loop after \<^verbatim>\<open>addNewTarget()\<close>, which is called
  without a difficulty.
\<close>

fun check_targets ::
  "env \<Rightarrow> (nat \<Rightarrow> real) \<Rightarrow> real \<Rightarrow> real \<Rightarrow> int \<Rightarrow> int \<Rightarrow> nat \<Rightarrow> state \<Rightarrow> (bool \<times> state) option"
where
  "check_targets e rnd clickX clickY nowHit nowSpawn 0 s = Some (False, s)"
| "check_targets e rnd clickX clickY nowHit nowSpawn (Suc i) s =
     (let target = targets s ! i;
          distance = sqrt ((clickX - tx target)\<^sup>2 + (clickY - ty target)\<^sup>2)
      in if distance \<le> radius target then
           (case addNewTarget e rnd nowSpawn None (register_hit nowHit i distance s) of
              None \<Rightarrow> None
            | Some s2 \<Rightarrow> Some (True, s2))
         else check_targets e rnd clickX clickY nowHit nowSpawn i s)"

text \<open>
  The loop that pushes the 8 sparkles. The speed \<^verbatim>\<open>2 + Math.random() * 2\<close> is computed in
  the arithmetic of doubles.
\<close>

function sparkle_loop :: "(nat \<Rightarrow> real) \<Rightarrow> real \<Rightarrow> real \<Rightarrow> nat \<Rightarrow> state \<Rightarrow> state" where
  "sparkle_loop rnd clickX clickY i s =
     (if i < 8 then
        sparkle_loop rnd clickX clickY (i + 1)
          (s\<lparr>sparkles := sparkles s @
                [\<lparr>sx = clickX, sy = clickY, life = 1,
                  angle = (real i / 8) * pi * 2,
                  speed = round_double (2 + round_double (rnd (randomCalls s) * 2)),
                  rotation = rnd (randomCalls s + 1) * pi * 2\<rparr>],
              randomCalls := randomCalls s + 2\<rparr>)
      else s)"
  by pat_completeness auto
termination
  by (relation "measure (\<lambda>(rnd, clickX, clickY, i, s). 8 - i)") auto

definition handleCanvasClick ::
  "env \<Rightarrow> (nat \<Rightarrow> real) \<Rightarrow> real \<Rightarrow> real \<Rightarrow> int \<Rightarrow> int \<Rightarrow> state \<Rightarrow> state option"
where
  "handleCanvasClick e rnd clickX clickY nowHit nowSpawn s =
     (if gameState s \<noteq> Game then Some s
      else if clickY > NET_Y e then
        Some (s\<lparr>feedback := feedback s @
                   [\<lparr>fx = clickX, fy = clickY, ftext = ''MISS'', points = 0, opacity = 1,
                     isMiss = None\<rparr>],
                 score := max 0 (score s - 10)\<rparr>)
      else
        (case check_targets e rnd clickX clickY nowHit nowSpawn (length (targets s)) s of
           None \<Rightarrow> None
         | Some (hitTarget, s1) \<Rightarrow>
             if \<not> hitTarget then
               Some (sparkle_loop rnd clickX clickY 0
                       (s1\<lparr>feedback := feedback s1 @
                              [\<lparr>fx = clickX, fy = clickY, ftext = ''MISS'', points = 0,
                                opacity = 1, isMiss = Some True\<rparr>]\<rparr>))
             else Some s1))"

definition handleMouseMove :: "real \<Rightarrow> real \<Rightarrow> state \<Rightarrow> state" where
  "handleMouseMove x y s = s\<lparr>mousePos := (x, y)\<rparr>"

subsection \<open>\<^verbatim>\<open>draw\<close> and \<^verbatim>\<open>gameLoop\<close>\<close>

text \<open>The position update \<^verbatim>\<open>draw\<close> makes for one target before drawing it.\<close>

definition move_target :: "real \<Rightarrow> Target \<Rightarrow> Target" where
  "move_target width target =
     (case velocity target of
        None \<Rightarrow> target
      | Some v \<Rightarrow>
          if v \<noteq> 0 \<and> v > 0 then
            (let x1 = tx target + direction target * v
             in target\<lparr>tx := x1,
                       direction := (if x1 - radius target < 0 then 1
                                     else if x1 + radius target > width then - 1
                                     else direction target)\<rparr>)
          else target)"

text \<open>
  The two ageing loops of \<^verbatim>\<open>draw\<close> run from the last element to the first and splice out
  the expired ones; each element is treated on its own, so the order of the survivors is
  the order of the list.
\<close>

fun age_sparkles :: "Sparkle list \<Rightarrow> Sparkle list" where
  "age_sparkles [] = []"
| "age_sparkles (sparkle # rest) =
     (let s1 = sparkle\<lparr>life := life sparkle - 0.02\<rparr>
      in if life s1 \<le> 0 then age_sparkles rest
         else s1\<lparr>rotation := rotation s1 + 0.15\<rparr> # age_sparkles rest)"

fun age_feedback :: "Feedback list \<Rightarrow> Feedback list" where
  "age_feedback [] = []"
| "age_feedback (fb # rest) =
     (let f1 = fb\<lparr>opacity := opacity fb - 0.02\<rparr>
      in if opacity f1 \<le> 0 then age_feedback rest else f1 # age_feedback rest)"

definition draw :: "env \<Rightarrow> state \<Rightarrow> state" where
  "draw e s = s\<lparr>targets := map (move_target (CANVAS_WIDTH e)) (targets s),
                sparkles := age_sparkles (sparkles s),
                feedback := age_feedback (feedback s)\<rparr>"

text \<open>The oscillation \<^verbatim>\<open>gameLoop\<close> adds to every target on hard.\<close>

definition oscillate :: "real \<Rightarrow> real \<Rightarrow> Target \<Rightarrow> Target" where
  "oscillate width time target =
     (let x1 = tx target + sin (time * 2) * 2
      in target\<lparr>tx := max (radius target) (min (width - radius target) x1)\<rparr>)"

definition gameLoop :: "env \<Rightarrow> int \<Rightarrow> int \<Rightarrow> state \<Rightarrow> state" where
  "gameLoop e nowElapsed nowTime s =
     (let elapsed = real_of_int (nowElapsed - startTime s) / 1000;
          s1 = s\<lparr>timeLeft := max 0 (60 - elapsed)\<rparr>;
          s2 = (if difficulty s1 = Hard then
                  s1\<lparr>targets := map (oscillate (CANVAS_WIDTH e) (real_of_int nowTime / 1000))
                                   (targets s1)\<rparr>
                else s1);
          s3 = draw e s2
      in if timeLeft s3 > 0 then s3\<lparr>frameRequested := True\<rparr>
         else
           (let avgReactionTime =
                  (if length (reactionTimes s3) > 0
                   then real_of_int (foldl (+) 0 (reactionTimes s3)) /
                        real (length (reactionTimes s3))
                   else 0)
            in s3\<lparr>gameStats := Some \<lparr>finalScore = score s3,
                                      statsPerfectHits = perfectHits s3,
                                      statsTotalHits = totalHits s3,
                                      statsReactionTimes = reactionTimes s3,
                                      averageReactionTime = avgReactionTime,
                                      mode = difficulty s3\<rparr>,
                   gameState := End,
                   frameRequested := False\<rparr>))"

subsection \<open>A session as a run of events\<close>

text \<open>
  What can happen while the game screen is shown: a click on the canvas, a mouse move, and
  an animation frame. A frame runs \<^verbatim>\<open>gameLoop\<close> only when one was requested.
\<close>

datatype event =
  Click env real real int int
| MouseMove real real
| Frame env int int

fun step :: "(nat \<Rightarrow> real) \<Rightarrow> state \<Rightarrow> event \<Rightarrow> state option" where
  "step rnd s (Click e clickX clickY nowHit nowSpawn) =
     handleCanvasClick e rnd clickX clickY nowHit nowSpawn s"
| "step rnd s (MouseMove x y) = Some (handleMouseMove x y s)"
| "step rnd s (Frame e nowElapsed nowTime) =
     (if frameRequested s then Some (gameLoop e nowElapsed nowTime s) else Some s)"

fun run :: "(nat \<Rightarrow> real) \<Rightarrow> state \<Rightarrow> event list \<Rightarrow> state option" where
  "run rnd s [] = Some s"
| "run rnd s (ev # evs) =
     (case step rnd s ev of None \<Rightarrow> None | Some s1 \<Rightarrow> run rnd s1 evs)"

subsection \<open>The rounds of the placement loop\<close>

text \<open>
  The \<open>n\<close>-th round of the \<^verbatim>\<open>while\<close> loop of \<^verbatim>\<open>addNewTarget\<close>, when the loop starts after
  \<open>k\<close> random calls: where its random calls start, the size, radius and position it
  draws, and whether that position is accepted.
\<close>

definition round_start :: "Difficulty \<Rightarrow> nat \<Rightarrow> nat \<Rightarrow> nat" where
  "round_start d k n = (if d = Easy then k + n else k + 2 * n)"

definition round_size :: "Difficulty \<Rightarrow> (nat \<Rightarrow> real) \<Rightarrow> nat \<Rightarrow> nat \<Rightarrow> Size" where
  "round_size d rnd k n =
     (if d = Easy then Large else if rnd (round_start d k n) > 0.5 then Large else Small)"

definition round_radius :: "Difficulty \<Rightarrow> (nat \<Rightarrow> real) \<Rightarrow> nat \<Rightarrow> nat \<Rightarrow> real" where
  "round_radius d rnd k n = (if round_size d rnd k n = Large then 190 else 130)"

definition round_x :: "real \<Rightarrow> Difficulty \<Rightarrow> (nat \<Rightarrow> real) \<Rightarrow> nat \<Rightarrow> nat \<Rightarrow> real" where
  "round_x width d rnd k n =
     rnd (if d = Easy then round_start d k n else round_start d k n + 1) *
       (width - round_radius d rnd k n * 2) + round_radius d rnd k n"

definition round_valid :: "real \<Rightarrow> Difficulty \<Rightarrow> (nat \<Rightarrow> real) \<Rightarrow> Target list \<Rightarrow> nat \<Rightarrow> nat \<Rightarrow> bool" where
  "round_valid width d rnd ts k n =
     (\<not> overlapping (round_x width d rnd k n) (round_radius d rnd k n) ts)"

subsection \<open>Concrete inputs\<close>

text \<open>
  The state the component starts with: the initial value of \<^verbatim>\<open>gameRef\<close> and of the React
  state, before any game loop has run.
\<close>

definition initial_state :: state where
  "initial_state =
     \<lparr>score = 0, timeLeft = 60, targets = [], feedback = [], sparkles = [],
      nextTargetId = 0, perfectHits = 0, totalHits = 0, mousePos = (0, 0),
      reactionTimes = [], gameState = Menu, difficulty = Easy, gameStats = None,
      startTime = 0, frameRequested = False, randomCalls = 0\<rparr>"

text \<open>A 1280 by 720 screen, and a canvas 400 wide, too narrow for two targets.\<close>

definition screen :: env where
  "screen = \<lparr>CANVAS_WIDTH = 1280, CANVAS_HEIGHT = 720\<rparr>"

definition narrow :: env where
  "narrow = \<lparr>CANVAS_WIDTH = 400, CANVAS_HEIGHT = 800\<rparr>"

text \<open>Two random streams: all zeros, and a zero followed by 3/5 for ever.\<close>

definition rnd_zero :: "nat \<Rightarrow> real" where
  "rnd_zero n = 0"

definition rnd_demo :: "nat \<Rightarrow> real" where
  "rnd_demo n = (if n = 0 then 0 else 3 / 5)"

text \<open>
  The easy session that \<^verbatim>\<open>initializeGame\<close> builds on the screen from \<open>rnd_demo\<close> at time
  1000, with its game loop started at time 1000: two large targets at x = 190 and x = 730.
\<close>

definition demo_session :: state where
  "demo_session =
     \<lparr>score = 0, timeLeft = 60,
      targets =
        [\<lparr>tid = 0, tx = 190, ty = 288, radius = 190, tsize = Large, velocity = Some 0,
          direction = 1, createdAt = Some 1000\<rparr>,
         \<lparr>tid = 1, tx = 730, ty = 288, radius = 190, tsize = Large, velocity = Some 0,
          direction = 1, createdAt = Some 1000\<rparr>],
      feedback = [], sparkles = [], nextTargetId = 2, perfectHits = 0, totalHits = 0,
      mousePos = (0, 0), reactionTimes = [], gameState = Game, difficulty = Easy,
      gameStats = None, startTime = 1000, frameRequested = True, randomCalls = 4\<rparr>"

text \<open>
  The state after the first target of an easy game was spawned on the narrow canvas from
  \<open>rnd_zero\<close> at time 0.
\<close>

definition narrow_one :: state where
  "narrow_one =
     initial_state
       \<lparr>targets := [\<lparr>tid = 0, tx = 190, ty = 320, radius = 190, tsize = Large,
                      velocity = Some 0, direction = - 1, createdAt = Some 0\<rparr>],
        nextTargetId := 1, randomCalls := 2\<rparr>"

text \<open>
  The demo session after a click at time 1500 on the centre of its second target: a
  PERFECT hit, and a replacement target spawned.
\<close>

definition demo_after_hit :: state where
  "demo_after_hit =
     demo_session
       \<lparr>score := 100,
        targets :=
          [\<lparr>tid = 0, tx = 190, ty = 288, radius = 190, tsize = Large, velocity = Some 0,
            direction = 1, createdAt = Some 1000\<rparr>,
           \<lparr>tid = 2, tx = 730, ty = 288, radius = 190, tsize = Large, velocity = Some 0,
            direction = 1, createdAt = Some 1500\<rparr>],
        feedback := [\<lparr>fx = 730, fy = 288, ftext = ''PERFECT'', points = 100, opacity = 1,
                      isMiss = None\<rparr>],
        nextTargetId := 3, perfectHits := 1, totalHits := 1, reactionTimes := [500],
        randomCalls := 6\<rparr>"

text \<open>
  The demo session after a click at time 1500 at 152 to the right of the centre of its
  second target: 19 points, and a replacement target spawned.
\<close>

definition demo_after_19 :: state where
  "demo_after_19 =
     demo_session
       \<lparr>score := 19,
        targets :=
          [\<lparr>tid = 0, tx = 190, ty = 288, radius = 190, tsize = Large, velocity = Some 0,
            direction = 1, createdAt = Some 1000\<rparr>,
           \<lparr>tid = 2, tx = 730, ty = 288, radius = 190, tsize = Large, velocity = Some 0,
            direction = 1, createdAt = Some 1500\<rparr>],
        feedback := [\<lparr>fx = 730, fy = 288, ftext = ''+19'', points = 19, opacity = 1,
                      isMiss = None\<rparr>],
        nextTargetId := 3, totalHits := 1, reactionTimes := [500], randomCalls := 6\<rparr>"

text \<open>
  The random stream whose every number is the largest double below 1, and the demo
  session after a click at (460, 100), inside no target, with that stream.
\<close>

definition rnd_top :: "nat \<Rightarrow> real" where
  "rnd_top n = 1 - 1 / 2 ^ 53"

definition demo_miss_top :: state where
  "demo_miss_top =
     sparkle_loop rnd_top 460 100 0
       (demo_session\<lparr>feedback := feedback demo_session @
          [\<lparr>fx = 460, fy = 100, ftext = ''MISS'', points = 0, opacity = 1,
            isMiss = Some True\<rparr>]\<rparr>)"

subsection \<open>The invariant of a session\<close>

text \<open>
  What holds of every state of a session whose game loop was started at time \<open>start\<close>:
  two live targets, one reaction time per hit, a frame requested exactly while the game
  is on, and, once the session has ended, statistics that are the snapshot of the state.
\<close>

definition session_inv :: "int \<Rightarrow> state \<Rightarrow> bool" where
  "session_inv start s \<longleftrightarrow>
     length (targets s) = 2 \<and> length (reactionTimes s) = totalHits s \<and>
     startTime s = start \<and> (gameState s = Game \<or> gameState s = End) \<and>
     (frameRequested s \<longleftrightarrow> gameState s = Game) \<and>
     (gameState s = End \<longrightarrow>
        gameStats s = Some
          \<lparr>finalScore = score s, statsPerfectHits = perfectHits s,
           statsTotalHits = totalHits s, statsReactionTimes = reactionTimes s,
           averageReactionTime =
             (if reactionTimes s = [] then 0
              else real_of_int (sum_list (reactionTimes s)) / real (length (reactionTimes s))),
           mode = difficulty s\<rparr>)"

section \<open>Properties\<close>

subsection \<open>Rounding to a double\<close>

lemma round_even_of_int: "round_even (of_int n) = n"
  by (simp add: round_even_def)

lemma round_even_bounds: "\<lfloor>y\<rfloor> \<le> round_even y" "round_even y \<le> \<lfloor>y\<rfloor> + 1"
  by (simp_all add: round_even_def Let_def)

lemma round_even_mono:
  assumes "a \<le> b"
  shows "round_even a \<le> round_even b"
proof (cases "\<lfloor>a\<rfloor> = \<lfloor>b\<rfloor>")
  case True
  with assms have "a - of_int \<lfloor>a\<rfloor> \<le> b - of_int \<lfloor>b\<rfloor>" by simp
  with True show ?thesis by (auto simp: round_even_def Let_def)
next
  case False
  with assms have "\<lfloor>a\<rfloor> < \<lfloor>b\<rfloor>" by (simp add: floor_mono order.strict_iff_order)
  then have "\<lfloor>a\<rfloor> + 1 \<le> \<lfloor>b\<rfloor>" by simp
  with round_even_bounds(2) [of a] round_even_bounds(1) [of b] show ?thesis by linarith
qed

lemma round_even_le: "y \<le> of_int n \<Longrightarrow> round_even y \<le> n"
  using round_even_mono [of y "of_int n"] by (simp add: round_even_of_int)

lemma round_even_ge: "of_int n \<le> y \<Longrightarrow> n \<le> round_even y"
  using round_even_mono [of "of_int n" y] by (simp add: round_even_of_int)

lemma exponent_eqI:
  assumes "power_int 2 e \<le> \<bar>x\<bar>" and "\<bar>x\<bar> < power_int 2 (e + 1)" and "- 1022 \<le> e"
  shows "exponent x = e"
proof -
  from assms(1) have pos: "0 < \<bar>x\<bar>"
    by (meson less_le_trans zero_less_numeral zero_less_power_int)
  have "(2::real) powr real_of_int e = power_int 2 e"
    by (simp add: powr_real_of_int')
  moreover have "(2::real) powr real_of_int (e + 1) = power_int 2 (e + 1)"
    by (rule powr_real_of_int') simp_all
  then have "(2::real) powr (real_of_int e + 1) = power_int 2 (e + 1)"
    by simp
  ultimately have "(2::real) powr real_of_int e = power_int 2 e"
    "(2::real) powr (real_of_int e + 1) = power_int 2 (e + 1)"
    by simp_all
  with assms(1,2) have "\<lfloor>log 2 \<bar>x\<bar>\<rfloor> = e"
    using floor_log_eq_powr_iff [of "\<bar>x\<bar>" 2 e] pos by simp
  with assms(3) show ?thesis by (simp add: exponent_def)
qed

lemma round_double_eqI:
  assumes "power_int 2 e \<le> \<bar>x\<bar>" and "\<bar>x\<bar> < power_int 2 (e + 1)" and "- 1022 \<le> e"
  shows "round_double x =
    of_int (round_even (x * power_int 2 (52 - e))) * power_int 2 (e - 52)"
proof -
  from assms(1) have "x \<noteq> 0"
    by (smt (verit) zero_less_power_int abs_zero)
  with exponent_eqI [OF assms] show ?thesis by (simp add: round_double_def)
qed

lemma power_int_2_add: "power_int (2::real) a * power_int 2 b = power_int 2 (a + b)"
  by (simp add: power_int_add)

lemma exponent_upper:
  assumes "x \<noteq> 0"
  shows "\<bar>x\<bar> < power_int 2 (exponent x + 1)"
proof -
  let ?k = "\<lfloor>log 2 \<bar>x\<bar>\<rfloor>"
  from assms have pos: "0 < \<bar>x\<bar>" by simp
  have "\<bar>x\<bar> < 2 powr (real_of_int ?k + 1)"
    using floor_log_eq_powr_iff [of "\<bar>x\<bar>" 2 ?k] pos by simp
  also have "real_of_int ?k + 1 = real_of_int (?k + 1)" by simp
  also have "(2::real) powr real_of_int (?k + 1) = power_int 2 (?k + 1)"
    by (rule powr_real_of_int') simp_all
  also have "\<dots> \<le> power_int 2 (exponent x + 1)"
    by (rule power_int_increasing) (simp_all add: exponent_def)
  finally show ?thesis .
qed

lemma exponent_lower:
  assumes "x \<noteq> 0" and "exponent x \<noteq> - 1022"
  shows "power_int 2 (exponent x) \<le> \<bar>x\<bar>"
proof -
  let ?k = "\<lfloor>log 2 \<bar>x\<bar>\<rfloor>"
  from assms(2) have k: "exponent x = ?k" by (auto simp: exponent_def max_def split: if_splits)
  from assms(1) have pos: "0 < \<bar>x\<bar>" by simp
  have "2 powr real_of_int ?k \<le> \<bar>x\<bar>"
    using floor_log_eq_powr_iff [of "\<bar>x\<bar>" 2 ?k] pos by simp
  moreover have "(2::real) powr real_of_int ?k = power_int 2 ?k"
    by (rule powr_real_of_int') simp_all
  ultimately show ?thesis using k by simp
qed

lemma exponent_mono:
  assumes "0 < x" and "x \<le> y"
  shows "exponent x \<le> exponent y"
proof -
  from assms have "log 2 \<bar>x\<bar> \<le> log 2 \<bar>y\<bar>" by simp
  then have "\<lfloor>log 2 \<bar>x\<bar>\<rfloor> \<le> \<lfloor>log 2 \<bar>y\<bar>\<rfloor>" by (rule floor_mono)
  then show ?thesis by (simp add: exponent_def)
qed

lemma exponent_ge: "- 1022 \<le> exponent x"
  by (simp add: exponent_def)

lemma round_double_nonneg:
  assumes "0 \<le> x"
  shows "0 \<le> round_double x"
proof (cases "x = 0")
  case True
  then show ?thesis by (simp add: round_double_def)
next
  case False
  from assms have "0 \<le> x * power_int 2 (52 - exponent x)" by simp
  then have "of_int 0 \<le> x * power_int 2 (52 - exponent x)" by simp
  then have "0 \<le> round_even (x * power_int 2 (52 - exponent x))" by (rule round_even_ge)
  with False show ?thesis by (simp add: round_double_def)
qed

lemma round_double_le_binade:
  assumes "0 < x"
  shows "round_double x \<le> power_int 2 (exponent x + 1)"
proof -
  let ?e = "exponent x"
  from assms exponent_upper [of x] have "x < power_int 2 (?e + 1)" by simp
  then have "x * power_int 2 (52 - ?e) \<le> power_int 2 (?e + 1) * power_int 2 (52 - ?e)"
    by (intro mult_right_mono) simp_all
  also have "power_int (2::real) (?e + 1) * power_int 2 (52 - ?e) = power_int 2 53"
    by (simp flip: power_int_add)
  also have "power_int (2::real) 53 = of_int (2 ^ 53)" by simp
  finally have "round_even (x * power_int 2 (52 - ?e)) \<le> 2 ^ 53" by (rule round_even_le)
  then have "real_of_int (round_even (x * power_int 2 (52 - ?e))) \<le> power_int 2 53"
    by (metis of_int_le_iff of_int_numeral of_int_power power_int_numeral)
  then have "real_of_int (round_even (x * power_int 2 (52 - ?e))) * power_int 2 (?e - 52)
      \<le> power_int 2 53 * power_int 2 (?e - 52)"
    by (intro mult_right_mono) simp_all
  also have "power_int (2::real) 53 * power_int 2 (?e - 52) = power_int 2 (?e + 1)"
    by (simp only: power_int_2_add) (simp add: algebra_simps)
  finally show ?thesis using assms by (simp add: round_double_def)
qed

lemma round_double_ge_binade:
  assumes "0 < x" and "exponent x \<noteq> - 1022"
  shows "power_int 2 (exponent x) \<le> round_double x"
proof -
  let ?e = "exponent x"
  from assms exponent_lower [of x] have "power_int 2 ?e \<le> x" by simp
  then have "power_int 2 ?e * power_int 2 (52 - ?e) \<le> x * power_int 2 (52 - ?e)"
    by (intro mult_right_mono) simp_all
  moreover have "power_int (2::real) ?e * power_int 2 (52 - ?e) = power_int 2 52"
    by (simp flip: power_int_add)
  moreover have "power_int (2::real) 52 = of_int (2 ^ 52)" by simp
  ultimately have "of_int (2 ^ 52) \<le> x * power_int 2 (52 - ?e)" by simp
  then have "2 ^ 52 \<le> round_even (x * power_int 2 (52 - ?e))" by (rule round_even_ge)
  then have "power_int 2 52 \<le> real_of_int (round_even (x * power_int 2 (52 - ?e)))"
    by (metis of_int_le_iff of_int_numeral of_int_power power_int_numeral)
  then have le: "power_int 2 52 * power_int 2 (?e - 52)
      \<le> real_of_int (round_even (x * power_int 2 (52 - ?e))) * power_int 2 (?e - 52)"
    by (intro mult_right_mono) simp_all
  have "power_int (2::real) ?e = power_int 2 52 * power_int 2 (?e - 52)"
    by (simp only: power_int_2_add) simp
  also note le
  finally have "power_int 2 ?e
      \<le> real_of_int (round_even (x * power_int 2 (52 - ?e))) * power_int 2 (?e - 52)" .
  with assms(1) show ?thesis by (simp only: round_double_def) simp
qed

lemma round_double_mono:
  assumes "0 \<le> x" and "x \<le> y"
  shows "round_double x \<le> round_double y"
proof (cases "x = 0")
  case True
  with assms round_double_nonneg [of y] show ?thesis by (simp add: round_double_def)
next
  case False
  with assms have x: "0 < x" and y: "0 < y" by simp_all
  show ?thesis
  proof (cases "exponent x = exponent y")
    case True
    from assms(2) have "x * power_int 2 (52 - exponent y) \<le> y * power_int 2 (52 - exponent y)"
      by (intro mult_right_mono) simp_all
    then have "round_even (x * power_int 2 (52 - exponent y))
        \<le> round_even (y * power_int 2 (52 - exponent y))"
      by (rule round_even_mono)
    then have "real_of_int (round_even (x * power_int 2 (52 - exponent y))) * power_int 2 (exponent y - 52)
        \<le> real_of_int (round_even (y * power_int 2 (52 - exponent y))) * power_int 2 (exponent y - 52)"
      by (intro mult_right_mono) simp_all
    with True x y show ?thesis by (simp add: round_double_def)
  next
    case False
    with exponent_mono [OF x assms(2)] have lt: "exponent x < exponent y" by simp
    with exponent_ge [of x] have "exponent y \<noteq> - 1022" by linarith
    from round_double_ge_binade [OF y this] have "power_int 2 (exponent y) \<le> round_double y" .
    moreover have "power_int (2::real) (exponent x + 1) \<le> power_int 2 (exponent y)"
      using lt by (intro power_int_increasing) simp_all
    ultimately show ?thesis using round_double_le_binade [OF x] by linarith
  qed
qed


lemma round_even_error: "\<bar>real_of_int (round_even y) - y\<bar> \<le> 1 / 2"
proof -
  have "real_of_int \<lfloor>y\<rfloor> \<le> y" "y < real_of_int \<lfloor>y\<rfloor> + 1" by linarith+
  then show ?thesis by (auto simp: round_even_def Let_def)
qed

lemma round_double_error:
  assumes "x \<noteq> 0"
  shows "\<bar>round_double x - x\<bar> \<le> power_int 2 (exponent x - 53)"
proof -
  let ?e = "exponent x"
  let ?y = "x * power_int 2 (52 - ?e)"
  have x: "x = ?y * power_int 2 (?e - 52)"
    by (simp add: mult.assoc power_int_2_add)
  have "round_double x - x = (real_of_int (round_even ?y) - ?y) * power_int 2 (?e - 52)"
    using assms by (simp add: round_double_def left_diff_distrib mult.assoc power_int_2_add)
  then have "\<bar>round_double x - x\<bar> = \<bar>real_of_int (round_even ?y) - ?y\<bar> * power_int 2 (?e - 52)"
    by (simp add: abs_mult)
  also have "\<dots> \<le> (1 / 2) * power_int 2 (?e - 52)"
    by (intro mult_right_mono round_even_error) simp
  also have "(1 / 2) * power_int (2::real) (?e - 52) = power_int 2 (- 1) * power_int 2 (?e - 52)"
    by simp
  also have "\<dots> = power_int 2 (?e - 53)"
    by (simp only: power_int_2_add) simp
  finally show ?thesis .
qed

lemma round_double_error_unit:
  assumes "\<bar>x\<bar> \<le> 1"
  shows "\<bar>round_double x - x\<bar> \<le> 1 / 2 ^ 53"
proof (cases "x = 0")
  case True
  then show ?thesis by (simp add: round_double_def)
next
  case False
  with assms have "log 2 \<bar>x\<bar> \<le> 0" by simp
  then have "\<lfloor>log 2 \<bar>x\<bar>\<rfloor> \<le> 0" by (simp add: floor_le_zero)
  then have "exponent x \<le> 0" by (simp add: exponent_def)
  then have "power_int (2::real) (exponent x - 53) \<le> power_int 2 (- 53)"
    by (intro power_int_increasing) simp_all
  with round_double_error [OF False] show ?thesis by simp
qed

text \<open>The doubles that the proofs below meet.\<close>

lemma round_double_0: "round_double 0 = 0"
  by (simp add: round_double_def)

lemma round_double_1: "round_double 1 = 1"
  by (subst round_double_eqI [of 0]) (simp_all add: round_even_def)

lemma round_double_2: "round_double 2 = 2"
  by (subst round_double_eqI [of 1]) (simp_all add: round_even_def)

lemma round_double_4: "round_double 4 = 4"
  by (subst round_double_eqI [of 2]) (simp_all add: round_even_def)

lemma round_double_95: "round_double 95 = 95"
  by (subst round_double_eqI [of 6]) (simp_all add: round_even_def)

lemma round_double_095: "round_double 0.95 = 8556839292003942 / 9007199254740992"
  by (subst round_double_eqI [of "- 1"]) (simp_all add: round_even_def)

lemma round_double_19_20: "round_double (19 / 20) = 8556839292003942 / 9007199254740992"
  by (subst round_double_eqI [of "- 1"]) (simp_all add: round_even_def)

subsection \<open>The placement loop\<close>

lemma overlapping_iff:
  "overlapping x r ts \<longleftrightarrow> (\<exists>t\<in>set ts. \<bar>x - tx t\<bar> < r + radius t + 80)"
  by (induction ts) auto

lemma placement_loop_sound:
  assumes "placement_loop w d rnd ts k = Some res"
  shows "\<not> overlapping (fst res) (fst (snd res)) ts \<and>
     fst (snd res) = (if fst (snd (snd res)) = Large then 190 else 130) \<and>
     (d = Easy \<longrightarrow> fst (snd (snd res)) = Large) \<and> k < snd (snd (snd res))"
proof (rule placement_loop.raw_induct
    [where P = "\<lambda>w d rnd ts k res. \<not> overlapping (fst res) (fst (snd res)) ts \<and>
     fst (snd res) = (if fst (snd (snd res)) = Large then 190 else 130) \<and>
     (d = Easy \<longrightarrow> fst (snd (snd res)) = Large) \<and> k < snd (snd (snd res))", OF _ assms])
  fix f and w :: real and d :: Difficulty and rnd :: "nat \<Rightarrow> real" and ts :: "Target list"
    and k :: nat and res :: "real \<times> real \<times> Size \<times> nat"
  assume IH: "\<And>w d rnd ts k res. f w d rnd ts k = Some res \<Longrightarrow>
     \<not> overlapping (fst res) (fst (snd res)) ts \<and>
     fst (snd res) = (if fst (snd (snd res)) = Large then 190 else 130) \<and>
     (d = Easy \<longrightarrow> fst (snd (snd res)) = Large) \<and> k < snd (snd (snd res))"
    and body: "(let sz = if d = Easy then Large else if 5 / 10 < rnd k then Large else Small;
          k1 = if d = Easy then k else k + 1;
          r = if sz = Large then 190 else 130;
          x = rnd k1 * (w - r * 2) + r
      in if \<not> overlapping x r ts then Some (x, r, sz, k1 + 1)
         else f w d rnd ts (k1 + 1)) = Some res"
  show "\<not> overlapping (fst res) (fst (snd res)) ts \<and>
     fst (snd res) = (if fst (snd (snd res)) = Large then 190 else 130) \<and>
     (d = Easy \<longrightarrow> fst (snd (snd res)) = Large) \<and> k < snd (snd (snd res))"
  proof (cases "round_valid w d rnd ts k 0")
    case True
    with body have "res = (round_x w d rnd k 0, round_radius d rnd k 0, round_size d rnd k 0,
           round_start d k (Suc 0))"
      by (cases "d = Easy"; cases "rnd k > 0.5")
         (simp_all add: round_valid_def round_x_def round_radius_def round_size_def
            round_start_def Let_def)
    with True show ?thesis
      by (simp add: round_valid_def round_radius_def round_size_def round_start_def)
  next
    case False
    with body have "f w d rnd ts (round_start d k (Suc 0)) = Some res"
      by (cases "d = Easy"; cases "rnd k > 0.5")
         (simp_all add: round_valid_def round_x_def round_radius_def round_size_def
            round_start_def Let_def)
    from IH [OF this] show ?thesis
      by (auto simp: round_start_def split: if_splits)
  qed
qed

lemma placement_loop_now:
  "round_valid w d rnd ts k 0 \<Longrightarrow>
   placement_loop w d rnd ts k =
     Some (round_x w d rnd k 0, round_radius d rnd k 0, round_size d rnd k 0,
           round_start d k (Suc 0))"
  by (subst placement_loop.simps, cases "d = Easy"; cases "rnd k > 0.5")
     (simp_all add: round_valid_def round_x_def round_radius_def round_size_def
        round_start_def Let_def)

lemma placement_loop_later:
  "\<not> round_valid w d rnd ts k 0 \<Longrightarrow>
   placement_loop w d rnd ts k = placement_loop w d rnd ts (round_start d k (Suc 0))"
  by (subst placement_loop.simps, cases "d = Easy"; cases "rnd k > 0.5")
     (simp_all add: round_valid_def round_x_def round_radius_def round_size_def
        round_start_def Let_def)

lemma round_valid_shift:
  "round_valid w d rnd ts (round_start d k (Suc 0)) n = round_valid w d rnd ts k (Suc n)"
  by (simp add: round_valid_def round_x_def round_radius_def round_size_def round_start_def)

lemma placement_loop_complete:
  "round_valid w d rnd ts k n \<Longrightarrow> \<exists>res. placement_loop w d rnd ts k = Some res"
proof (induction n arbitrary: k)
  case 0
  then show ?case by (simp add: placement_loop_now)
next
  case (Suc n)
  show ?case
  proof (cases "round_valid w d rnd ts k 0")
    case True
    then show ?thesis by (simp add: placement_loop_now)
  next
    case False
    from Suc.prems have "round_valid w d rnd ts (round_start d k (Suc 0)) n"
      by (simp add: round_valid_shift)
    from Suc.IH [OF this] show ?thesis
      using False by (simp add: placement_loop_later)
  qed
qed

lemma placement_loop_needs_round:
  assumes "placement_loop w d rnd ts k = Some res"
  shows "\<exists>n. round_valid w d rnd ts k n"
proof (rule placement_loop.raw_induct
    [where P = "\<lambda>w d rnd ts k res. \<exists>n. round_valid w d rnd ts k n", OF _ assms])
  fix f and w :: real and d :: Difficulty and rnd :: "nat \<Rightarrow> real" and ts :: "Target list"
    and k :: nat and res :: "real \<times> real \<times> Size \<times> nat"
  assume IH: "\<And>w d rnd ts k res. f w d rnd ts k = Some res \<Longrightarrow> \<exists>n. round_valid w d rnd ts k n"
    and body: "(let sz = if d = Easy then Large else if 5 / 10 < rnd k then Large else Small;
          k1 = if d = Easy then k else k + 1;
          r = if sz = Large then 190 else 130;
          x = rnd k1 * (w - r * 2) + r
      in if \<not> overlapping x r ts then Some (x, r, sz, k1 + 1)
         else f w d rnd ts (k1 + 1)) = Some res"
  show "\<exists>n. round_valid w d rnd ts k n"
  proof (cases "round_valid w d rnd ts k 0")
    case True
    then show ?thesis by blast
  next
    case False
    with body have "f w d rnd ts (round_start d k (Suc 0)) = Some res"
      by (cases "d = Easy"; cases "rnd k > 0.5")
         (simp_all add: round_valid_def round_x_def round_radius_def round_size_def
            round_start_def Let_def)
    from IH [OF this] obtain n where "round_valid w d rnd ts (round_start d k (Suc 0)) n" ..
    then have "round_valid w d rnd ts k (Suc n)"
      by (simp add: round_valid_shift)
    then show ?thesis ..
  qed
qed

lemma placement_loop_returns_iff:
  "(\<exists>res. placement_loop w d rnd ts k = Some res) \<longleftrightarrow> (\<exists>n. round_valid w d rnd ts k n)"
  using placement_loop_complete placement_loop_needs_round by blast

subsection \<open>\<^verbatim>\<open>addNewTarget\<close>\<close>

lemma addNewTarget_Some:
  assumes "addNewTarget e rnd now diff s = Some s'"
  shows "\<exists>x r sz k.
     placement_loop (CANVAS_WIDTH e) (case diff of Some d \<Rightarrow> d | None \<Rightarrow> difficulty s) rnd
       (targets s) (randomCalls s) = Some (x, r, sz, k) \<and>
     s' = s\<lparr>targets := targets s @
              [\<lparr>tid = nextTargetId s, tx = x, ty = TARGET_SPAWN_Y e, radius = r, tsize = sz,
                velocity = Some (if (case diff of Some d \<Rightarrow> d | None \<Rightarrow> difficulty s) = Hard
                                 then rnd k * 1.5 + 0.5 else 0),
                direction = (if rnd (if (case diff of Some d \<Rightarrow> d | None \<Rightarrow> difficulty s) = Hard
                                     then k + 1 else k) > 0.5 then 1 else - 1),
                createdAt = Some now\<rparr>],
            nextTargetId := nextTargetId s + 1,
            randomCalls := (if (case diff of Some d \<Rightarrow> d | None \<Rightarrow> difficulty s) = Hard
                            then k + 1 else k) + 1\<rparr>"
proof -
  from assms obtain res where loop:
    "placement_loop (CANVAS_WIDTH e) (case diff of Some d \<Rightarrow> d | None \<Rightarrow> difficulty s) rnd
       (targets s) (randomCalls s) = Some res"
    by (auto simp: addNewTarget_def Let_def split: option.splits)
  obtain x r sz k where res: "res = (x, r, sz, k)"
    by (cases res) auto
  from assms loop res have "s' = s\<lparr>targets := targets s @
              [\<lparr>tid = nextTargetId s, tx = x, ty = TARGET_SPAWN_Y e, radius = r, tsize = sz,
                velocity = Some (if (case diff of Some d \<Rightarrow> d | None \<Rightarrow> difficulty s) = Hard
                                 then rnd k * 1.5 + 0.5 else 0),
                direction = (if rnd (if (case diff of Some d \<Rightarrow> d | None \<Rightarrow> difficulty s) = Hard
                                     then k + 1 else k) > 0.5 then 1 else - 1),
                createdAt = Some now\<rparr>],
            nextTargetId := nextTargetId s + 1,
            randomCalls := (if (case diff of Some d \<Rightarrow> d | None \<Rightarrow> difficulty s) = Hard
                            then k + 1 else k) + 1\<rparr>"
    by (simp add: addNewTarget_def Let_def)
  with loop res show ?thesis by blast
qed

lemma addNewTarget_keeps:
  assumes "addNewTarget e rnd now diff s = Some s'"
  shows "score s' = score s" "feedback s' = feedback s" "sparkles s' = sparkles s"
    "perfectHits s' = perfectHits s" "totalHits s' = totalHits s"
    "reactionTimes s' = reactionTimes s" "gameState s' = gameState s"
    "difficulty s' = difficulty s" "gameStats s' = gameStats s" "startTime s' = startTime s"
    "frameRequested s' = frameRequested s" "timeLeft s' = timeLeft s"
    "length (targets s') = Suc (length (targets s))"
  using addNewTarget_Some [OF assms] by auto

lemma addNewTarget_returns_iff:
  "(\<exists>s'. addNewTarget e rnd now diff s = Some s') \<longleftrightarrow>
   (\<exists>n. round_valid (CANVAS_WIDTH e) (case diff of Some d \<Rightarrow> d | None \<Rightarrow> difficulty s) rnd
          (targets s) (randomCalls s) n)"
proof -
  have "(\<exists>s'. addNewTarget e rnd now diff s = Some s') \<longleftrightarrow>
        (\<exists>res. placement_loop (CANVAS_WIDTH e) (case diff of Some d \<Rightarrow> d | None \<Rightarrow> difficulty s)
           rnd (targets s) (randomCalls s) = Some res)"
    by (auto simp: addNewTarget_def Let_def split: option.splits prod.splits)
  also have "\<dots> \<longleftrightarrow>
        (\<exists>n. round_valid (CANVAS_WIDTH e) (case diff of Some d \<Rightarrow> d | None \<Rightarrow> difficulty s) rnd
          (targets s) (randomCalls s) n)"
    by (rule placement_loop_returns_iff)
  finally show ?thesis .
qed

text \<open>
  Claim C5. When \<^verbatim>\<open>addNewTarget\<close> returns, it has appended one target, and the Euclidean
  distance between the centre of the new target and the centre of every target that was
  live at that moment is at least the sum of the two radii plus 80. (The code compares
  only the x coordinates; the Euclidean distance is never smaller than that.)
\<close>

theorem spawn_keeps_distance:
  assumes "addNewTarget e rnd now diff s = Some s'"
  shows "\<exists>t. targets s' = targets s @ [t] \<and>
           (\<forall>u \<in> set (targets s).
              radius t + radius u + 80 \<le> sqrt ((tx t - tx u)\<^sup>2 + (ty t - ty u)\<^sup>2))"
proof -
  from addNewTarget_Some [OF assms] obtain x r sz k t where
    loop: "placement_loop (CANVAS_WIDTH e) (case diff of Some d \<Rightarrow> d | None \<Rightarrow> difficulty s) rnd
       (targets s) (randomCalls s) = Some (x, r, sz, k)"
    and t: "targets s' = targets s @ [t]" "tx t = x" "radius t = r"
    by auto
  from placement_loop_sound [OF loop]
  have "\<not> overlapping (fst (x, r, sz, k)) (fst (snd (x, r, sz, k))) (targets s)"
    by (rule conjunct1)
  then have "\<not> overlapping x r (targets s)" by simp
  then have far: "\<forall>u \<in> set (targets s). r + radius u + 80 \<le> \<bar>x - tx u\<bar>"
    by (auto simp: overlapping_iff not_less)
  have "r + radius u + 80 \<le> sqrt ((x - tx u)\<^sup>2 + (ty t - ty u)\<^sup>2)" if "u \<in> set (targets s)" for u
  proof -
    from far that have "r + radius u + 80 \<le> \<bar>x - tx u\<bar>" by blast
    also have "\<dots> \<le> sqrt ((x - tx u)\<^sup>2 + (ty t - ty u)\<^sup>2)"
      by (rule real_sqrt_ge_abs1)
    finally show ?thesis .
  qed
  with t show ?thesis by auto
qed

text \<open>
  Claim C9. A spawned target has velocity exactly 0 unless the difficulty in force is
  hard; on hard its velocity lies in \<open>[0.5, 2)\<close> and its direction is \<open>1\<close> or \<open>-1\<close>. The
  random numbers are taken from \<open>[0, 1)\<close>.
\<close>

theorem spawn_velocity:
  assumes "addNewTarget e rnd now diff s = Some s'"
    and "\<forall>i. 0 \<le> rnd i \<and> rnd i < 1"
  shows "\<exists>t. targets s' = targets s @ [t] \<and>
           ((case diff of Some d \<Rightarrow> d | None \<Rightarrow> difficulty s) \<noteq> Hard \<longrightarrow> velocity t = Some 0) \<and>
           ((case diff of Some d \<Rightarrow> d | None \<Rightarrow> difficulty s) = Hard \<longrightarrow>
              (\<exists>v. velocity t = Some v \<and> 0.5 \<le> v \<and> v < 2) \<and>
              (direction t = 1 \<or> direction t = - 1))"
proof -
  from addNewTarget_Some [OF assms(1)] obtain k t where
    t: "targets s' = targets s @ [t]"
      "velocity t = Some (if (case diff of Some d \<Rightarrow> d | None \<Rightarrow> difficulty s) = Hard
                                 then rnd k * 1.5 + 0.5 else 0)"
      "direction t = 1 \<or> direction t = - 1"
    by auto
  from assms(2) have "0 \<le> rnd k" "rnd k < 1" by auto
  then have "0.5 \<le> rnd k * 1.5 + 0.5" "rnd k * 1.5 + 0.5 < 2" by simp_all
  with t show ?thesis by auto
qed

subsection \<open>Evaluating the concrete inputs\<close>

lemma rnd_demo_range: "\<forall>i. 0 \<le> rnd_demo i \<and> rnd_demo i < 1"
  by (simp add: rnd_demo_def)

lemma overlapping_Cons_abs:
  "overlapping x r (t # ts) = (\<bar>x - tx t\<bar> < r + radius t + 80 \<or> overlapping x r ts)"
  by simp

lemma demo_session_built:
  "initializeGame screen rnd_demo 1000 1000 Easy initial_state =
     Some (demo_session\<lparr>startTime := 0, frameRequested := False\<rparr>)"
  by (simp add: initializeGame_def addNewTarget_def initial_state_def
      placement_loop_now round_valid_def round_x_def round_radius_def round_size_def
      round_start_def screen_def rnd_demo_def Let_def TARGET_SPAWN_Y_def demo_session_def
      overlapping_Cons_abs del: overlapping.simps(2))

lemma demo_session_started:
  "gameLoopEffect 1000 (demo_session\<lparr>startTime := 0, frameRequested := False\<rparr>) = demo_session"
  by (simp add: gameLoopEffect_def demo_session_def)

lemma narrow_one_built:
  "addNewTarget narrow rnd_zero 0 (Some Easy) initial_state = Some narrow_one"
  by (simp add: addNewTarget_def initial_state_def narrow_one_def
      placement_loop_now round_valid_def round_x_def round_radius_def round_size_def
      round_start_def narrow_def rnd_zero_def Let_def TARGET_SPAWN_Y_def)

lemma narrow_canvas_hangs:
  assumes "\<forall>i. 0 \<le> rnd i \<and> rnd i < 1"
  shows "addNewTarget narrow rnd now (Some Easy) narrow_one = None"
proof -
  have "\<not> round_valid (CANVAS_WIDTH narrow) Easy rnd (targets narrow_one) (randomCalls narrow_one) n"
    for n
  proof -
    from assms have "0 \<le> rnd (2 + n)" "rnd (2 + n) < 1" by auto
    then show ?thesis
      by (simp add: round_valid_def round_x_def round_radius_def round_size_def
          round_start_def narrow_def narrow_one_def overlapping_Cons_abs
          del: overlapping.simps(2))
  qed
  then have "\<not> (\<exists>s'. addNewTarget narrow rnd now (Some Easy) narrow_one = Some s')"
    by (simp add: addNewTarget_returns_iff)
  then show ?thesis by (cases "addNewTarget narrow rnd now (Some Easy) narrow_one") auto
qed

text \<open>
  Claim C3, as the code has it. \<^verbatim>\<open>addNewTarget\<close> has no bound on its retries and no
  fallback placement: it returns exactly when some round of its loop draws a position
  that keeps the distance to every live target.
\<close>

theorem spawn_returns_iff:
  "(\<exists>s'. addNewTarget e rnd now diff s = Some s') \<longleftrightarrow>
   (\<exists>n. round_valid (CANVAS_WIDTH e) (case diff of Some d \<Rightarrow> d | None \<Rightarrow> difficulty s) rnd
          (targets s) (randomCalls s) n)"
  by (rule addNewTarget_returns_iff)

theorem spawn_returns_iff_witness:
  "\<exists>s'. addNewTarget screen rnd_demo 2000 None
           (demo_session\<lparr>targets := take 1 (targets demo_session)\<rparr>) = Some s'"
proof -
  have "round_valid (CANVAS_WIDTH screen) Easy rnd_demo
          (take 1 (targets demo_session)) 4 0"
    by (simp add: round_valid_def round_x_def round_radius_def round_size_def
        round_start_def screen_def demo_session_def rnd_demo_def overlapping_Cons_abs
        del: overlapping.simps(2))
  then show ?thesis
    using spawn_returns_iff [of screen rnd_demo 2000 None
        "demo_session\<lparr>targets := take 1 (targets demo_session)\<rparr>"]
    by (auto simp: demo_session_def)
qed

text \<open>
  Claim C3 as stated fails: on a canvas 400 wide with one large target live, the spawn
  of a second target never returns.
\<close>

theorem spawn_never_returns:
  "addNewTarget narrow rnd_zero 0 (Some Easy) initial_state = Some narrow_one \<and>
   addNewTarget narrow rnd_zero 0 (Some Easy) narrow_one = None"
proof -
  have "\<forall>i. 0 \<le> rnd_zero i \<and> rnd_zero i < 1" by (simp add: rnd_zero_def)
  then show ?thesis by (simp add: narrow_one_built narrow_canvas_hangs)
qed

theorem spawn_keeps_distance_witness:
  "\<exists>s'. addNewTarget screen rnd_demo 2000 None
           (demo_session\<lparr>targets := take 1 (targets demo_session)\<rparr>) = Some s' \<and>
     (\<exists>t. targets s' = take 1 (targets demo_session) @ [t] \<and>
        (\<forall>u \<in> set (take 1 (targets demo_session)).
           radius t + radius u + 80 \<le> sqrt ((tx t - tx u)\<^sup>2 + (ty t - ty u)\<^sup>2)))"
proof -
  have "round_valid (CANVAS_WIDTH screen) Easy rnd_demo
          (take 1 (targets demo_session)) 4 0"
    by (simp add: round_valid_def round_x_def round_radius_def round_size_def
        round_start_def screen_def demo_session_def rnd_demo_def overlapping_Cons_abs
        del: overlapping.simps(2))
  then obtain s' where h: "addNewTarget screen rnd_demo 2000 None
           (demo_session\<lparr>targets := take 1 (targets demo_session)\<rparr>) = Some s'"
    using addNewTarget_returns_iff [of screen rnd_demo 2000 None
        "demo_session\<lparr>targets := take 1 (targets demo_session)\<rparr>"]
    by (auto simp: demo_session_def)
  from spawn_keeps_distance [OF h] h show ?thesis by simp
qed

theorem spawn_velocity_witness:
  "(\<forall>i. 0 \<le> rnd_demo i \<and> rnd_demo i < 1) \<and>
   (\<exists>s'. addNewTarget screen rnd_demo 2000 (Some Hard) initial_state = Some s' \<and>
      (\<exists>t v. targets s' = [t] \<and> velocity t = Some v \<and> 0.5 \<le> v \<and> v < 2 \<and>
         (direction t = 1 \<or> direction t = - 1)))"
proof -
  have "round_valid (CANVAS_WIDTH screen) Hard rnd_demo [] 0 0"
    by (simp add: round_valid_def)
  then obtain s' where h: "addNewTarget screen rnd_demo 2000 (Some Hard) initial_state = Some s'"
    using addNewTarget_returns_iff [of screen rnd_demo 2000 "Some Hard" initial_state]
    by (auto simp: initial_state_def)
  from spawn_velocity [OF h rnd_demo_range] h rnd_demo_range show ?thesis
    by (auto simp: initial_state_def)
qed

subsection \<open>\<^verbatim>\<open>calculatePoints\<close>\<close>

lemma toString_zero: "toString 0 = ''0''"
  by (simp add: toString_def)

lemma toString_two_digits:
  assumes "0 \<le> n" and "n \<le> 99"
  shows "toString n =
     (if n < 10 then [''0123456789'' ! nat n]
      else [''0123456789'' ! nat (n div 10), ''0123456789'' ! nat (n mod 10)])"
proof (cases "n < 10")
  case True
  with assms show ?thesis by (simp add: toString_def)
next
  case False
  with assms have big: "\<not> nat n < 10" and small: "nat n div 10 < 10" by simp_all
  have "digits (nat n) = digits (nat n div 10) @ [''0123456789'' ! (nat n mod 10)]"
    using big by (subst digits.simps) simp
  also have "digits (nat n div 10) = [''0123456789'' ! (nat n div 10)]"
    using small by (subst digits.simps) simp
  finally have "digits (nat n) =
      [''0123456789'' ! (nat n div 10), ''0123456789'' ! (nat n mod 10)]"
    by simp
  moreover from assms have "nat n div 10 = nat (n div 10)" "nat n mod 10 = nat (n mod 10)"
    by (simp_all add: nat_div_distrib nat_mod_distrib)
  ultimately show ?thesis using False assms by (simp add: toString_def)
qed

lemma calculatePoints_fst:
  "fst (calculatePoints d r) =
     (if round_double (1 - round_double (d / r)) > round_double 0.95 then 100
      else \<lfloor>round_double (round_double (1 - round_double (d / r)) * 100)\<rfloor>)"
  by (simp only: calculatePoints_def Let_def split: if_splits) simp

lemma calculatePoints_snd:
  "snd (calculatePoints d r) =
     (if round_double (1 - round_double (d / r)) > round_double 0.95 then ''PERFECT''
      else ''+'' @ toString \<lfloor>round_double (round_double (1 - round_double (d / r)) * 100)\<rfloor>)"
  by (simp only: calculatePoints_def Let_def split: if_splits) simp

lemma accuracy_bounds:
  assumes "0 < r" "0 \<le> d" "d \<le> r"
  shows "0 \<le> round_double (d / r)" "round_double (d / r) \<le> 1"
    "0 \<le> round_double (1 - round_double (d / r))"
    "round_double (1 - round_double (d / r)) \<le> 1"
proof -
  from assms have q: "0 \<le> d / r" "d / r \<le> 1" by simp_all
  from q(1) show q0: "0 \<le> round_double (d / r)" by (rule round_double_nonneg)
  from round_double_mono [OF q] show q1: "round_double (d / r) \<le> 1"
    by (simp only: round_double_1)
  from q1 have a: "0 \<le> 1 - round_double (d / r)" by simp
  then show "0 \<le> round_double (1 - round_double (d / r))" by (rule round_double_nonneg)
  from q0 have "1 - round_double (d / r) \<le> 1" by simp
  from round_double_mono [OF a this] show "round_double (1 - round_double (d / r)) \<le> 1"
    by (simp only: round_double_1)
qed

lemma accuracy_error:
  assumes "0 < r" "0 \<le> d" "d \<le> r"
  shows "\<bar>round_double (1 - round_double (d / r)) - (1 - d / r)\<bar> \<le> 1 / 2 ^ 52"
proof -
  from assms have "\<bar>d / r\<bar> \<le> 1" by simp
  then have e1: "\<bar>round_double (d / r) - d / r\<bar> \<le> 1 / 2 ^ 53"
    by (rule round_double_error_unit)
  from accuracy_bounds(1,2) [OF assms] have "\<bar>1 - round_double (d / r)\<bar> \<le> 1" by simp
  then have e2: "\<bar>round_double (1 - round_double (d / r)) - (1 - round_double (d / r))\<bar>
      \<le> 1 / 2 ^ 53"
    by (rule round_double_error_unit)
  have "(1::real) / 2 ^ 53 + 1 / 2 ^ 53 = 1 / 2 ^ 52" by simp
  with e1 e2 show ?thesis by linarith
qed

lemma points_low:
  assumes "0 < r" "0 \<le> d" "d \<le> r"
    and "\<not> round_double (1 - round_double (d / r)) > round_double 0.95"
  shows "0 \<le> \<lfloor>round_double (round_double (1 - round_double (d / r)) * 100)\<rfloor>"
    "\<lfloor>round_double (round_double (1 - round_double (d / r)) * 100)\<rfloor> \<le> 95"
proof -
  define a where "a = round_double (1 - round_double (d / r))"
  have a0: "0 \<le> a" unfolding a_def by (rule accuracy_bounds(3) [OF assms(1-3)])
  then have p0: "0 \<le> a * 100" by simp
  then have "0 \<le> round_double (a * 100)" by (rule round_double_nonneg)
  then show "0 \<le> \<lfloor>round_double (round_double (1 - round_double (d / r)) * 100)\<rfloor>"
    by (simp add: a_def)
  from assms(4) have "a \<le> 8556839292003942 / 9007199254740992"
    unfolding a_def by (simp only: round_double_095 not_less)
  then have "a * 100 \<le> 95" by simp
  from round_double_mono [OF p0 this] have "round_double (a * 100) \<le> 95"
    by (simp only: round_double_95)
  then have "\<lfloor>round_double (a * 100)\<rfloor> \<le> 95" by linarith
  then show "\<lfloor>round_double (round_double (1 - round_double (d / r)) * 100)\<rfloor> \<le> 95"
    by (simp add: a_def)
qed

lemma calculatePoints_range:
  assumes "0 < r" "0 \<le> d" "d \<le> r"
  shows "fst (calculatePoints d r) = 100 \<or>
         (0 \<le> fst (calculatePoints d r) \<and> fst (calculatePoints d r) \<le> 95)"
proof (cases "round_double (1 - round_double (d / r)) > round_double 0.95")
  case True
  then show ?thesis by (simp add: calculatePoints_fst)
next
  case False
  with points_low [OF assms False] show ?thesis
    by (simp add: calculatePoints_fst)
qed

text \<open>
  A click 152 away from the centre of a large target: the quotient \<open>152 / 190\<close> rounds up,
  the accuracy is just below \<open>0.2\<close>, and 19 points are awarded.
\<close>

lemma calculatePoints_152_190: "calculatePoints 152 190 = (19, ''+19'')"
proof -
  have q: "round_double (152 / 190) = 7205759403792794 / 9007199254740992"
    by (subst round_double_eqI [of "- 1"]) (simp_all add: round_even_def)
  have a: "round_double (1 - 7205759403792794 / 9007199254740992) =
      1801439850948198 / 9007199254740992"
    by (subst round_double_eqI [of "- 3"]) (simp_all add: round_even_def)
  have m: "round_double (1801439850948198 / 9007199254740992 * 100) =
      5629499534213119 / 281474976710656"
    by (subst round_double_eqI [of 4]) (simp_all add: round_even_def)
  have "calculatePoints 152 190 =
      (if (1801439850948198::real) / 9007199254740992 > 8556839292003942 / 9007199254740992
       then (100, ''PERFECT'')
       else (\<lfloor>(5629499534213119::real) / 281474976710656\<rfloor>,
             ''+'' @ toString \<lfloor>(5629499534213119::real) / 281474976710656\<rfloor>))"
    by (simp only: calculatePoints_def Let_def q a m round_double_095)
  also have "\<dots> = (19, ''+19'')"
    by (simp add: toString_def)
  finally show ?thesis .
qed

text \<open>Three more clicks at a whole number of pixels from the centre.\<close>

lemma calculatePoints_104_130: "calculatePoints 104 130 = (19, ''+19'')"
proof -
  have q: "round_double (104 / 130) = 7205759403792794 / 9007199254740992"
    by (subst round_double_eqI [of "- 1"]) (simp_all add: round_even_def)
  have a: "round_double (1 - 7205759403792794 / 9007199254740992) =
      1801439850948198 / 9007199254740992"
    by (subst round_double_eqI [of "- 3"]) (simp_all add: round_even_def)
  have m: "round_double (1801439850948198 / 9007199254740992 * 100) =
      5629499534213119 / 281474976710656"
    by (subst round_double_eqI [of 4]) (simp_all add: round_even_def)
  have "calculatePoints 104 130 =
      (if (1801439850948198::real) / 9007199254740992 > 8556839292003942 / 9007199254740992
       then (100, ''PERFECT'')
       else (\<lfloor>(5629499534213119::real) / 281474976710656\<rfloor>,
             ''+'' @ toString \<lfloor>(5629499534213119::real) / 281474976710656\<rfloor>))"
    by (simp only: calculatePoints_def Let_def q a m round_double_095)
  also have "\<dots> = (19, ''+19'')"
    by (simp add: toString_def)
  finally show ?thesis .
qed

lemma calculatePoints_171_190: "calculatePoints 171 190 = (9, ''+9'')"
proof -
  have q: "round_double (171 / 190) = 8106479329266893 / 9007199254740992"
    by (subst round_double_eqI [of "- 1"]) (simp_all add: round_even_def)
  have a: "round_double (1 - 8106479329266893 / 9007199254740992) =
      900719925474099 / 9007199254740992"
    by (subst round_double_eqI [of "- 4"]) (simp_all add: round_even_def)
  have m: "round_double (900719925474099 / 9007199254740992 * 100) =
      5629499534213119 / 562949953421312"
    by (subst round_double_eqI [of 3]) (simp_all add: round_even_def)
  have "calculatePoints 171 190 =
      (if (900719925474099::real) / 9007199254740992 > 8556839292003942 / 9007199254740992
       then (100, ''PERFECT'')
       else (\<lfloor>(5629499534213119::real) / 562949953421312\<rfloor>,
             ''+'' @ toString \<lfloor>(5629499534213119::real) / 562949953421312\<rfloor>))"
    by (simp only: calculatePoints_def Let_def q a m round_double_095)
  also have "\<dots> = (9, ''+9'')"
    by (simp add: toString_def)
  finally show ?thesis .
qed

lemma calculatePoints_117_130: "calculatePoints 117 130 = (9, ''+9'')"
proof -
  have q: "round_double (117 / 130) = 8106479329266893 / 9007199254740992"
    by (subst round_double_eqI [of "- 1"]) (simp_all add: round_even_def)
  have a: "round_double (1 - 8106479329266893 / 9007199254740992) =
      900719925474099 / 9007199254740992"
    by (subst round_double_eqI [of "- 4"]) (simp_all add: round_even_def)
  have m: "round_double (900719925474099 / 9007199254740992 * 100) =
      5629499534213119 / 562949953421312"
    by (subst round_double_eqI [of 3]) (simp_all add: round_even_def)
  have "calculatePoints 117 130 =
      (if (900719925474099::real) / 9007199254740992 > 8556839292003942 / 9007199254740992
       then (100, ''PERFECT'')
       else (\<lfloor>(5629499534213119::real) / 562949953421312\<rfloor>,
             ''+'' @ toString \<lfloor>(5629499534213119::real) / 562949953421312\<rfloor>))"
    by (simp only: calculatePoints_def Let_def q a m round_double_095)
  also have "\<dots> = (9, ''+9'')"
    by (simp add: toString_def)
  finally show ?thesis .
qed

lemma calculatePoints_centre: "0 < r \<Longrightarrow> calculatePoints 0 r = (100, ''PERFECT'')"
  by (simp add: calculatePoints_def round_double_0 round_double_1 round_double_19_20)

lemma calculatePoints_edge: "0 < r \<Longrightarrow> calculatePoints r r = (0, ''+0'')"
  by (simp add: calculatePoints_def round_double_0 round_double_1 round_double_19_20
      toString_zero)

subsection \<open>\<^verbatim>\<open>handleCanvasClick\<close>\<close>

lemma register_hit_fields:
  "score (register_hit nowHit i d s) = score s + fst (calculatePoints d (radius (targets s ! i)))"
  "feedback (register_hit nowHit i d s) = feedback s @
     [\<lparr>fx = tx (targets s ! i), fy = ty (targets s ! i),
       ftext = snd (calculatePoints d (radius (targets s ! i))),
       points = fst (calculatePoints d (radius (targets s ! i))),
       opacity = 1, isMiss = None\<rparr>]"
  "totalHits (register_hit nowHit i d s) = totalHits s + 1"
  "perfectHits (register_hit nowHit i d s) =
     (if snd (calculatePoints d (radius (targets s ! i))) = ''PERFECT''
      then perfectHits s + 1 else perfectHits s)"
  "length (reactionTimes (register_hit nowHit i d s)) = length (reactionTimes s) + 1"
  "targets (register_hit nowHit i d s) = take i (targets s) @ drop (Suc i) (targets s)"
  "sparkles (register_hit nowHit i d s) = sparkles s"
  "gameState (register_hit nowHit i d s) = gameState s"
  "difficulty (register_hit nowHit i d s) = difficulty s"
  "gameStats (register_hit nowHit i d s) = gameStats s"
  "startTime (register_hit nowHit i d s) = startTime s"
  "frameRequested (register_hit nowHit i d s) = frameRequested s"
  "timeLeft (register_hit nowHit i d s) = timeLeft s"
  "randomCalls (register_hit nowHit i d s) = randomCalls s"
  by (simp_all add: register_hit_def Let_def split: prod.splits)

lemma check_targets_none:
  "(\<forall>i<n. \<not> pointer_distance cx cy (targets s ! i) \<le> radius (targets s ! i)) \<Longrightarrow>
   check_targets e rnd cx cy nowHit nowSpawn n s = Some (False, s)"
  by (induction n) (simp_all add: Let_def)

lemma check_targets_hit:
  "i < n \<Longrightarrow> pointer_distance cx cy (targets s ! i) \<le> radius (targets s ! i) \<Longrightarrow>
   (\<forall>j. i < j \<and> j < n \<longrightarrow> \<not> pointer_distance cx cy (targets s ! j) \<le> radius (targets s ! j)) \<Longrightarrow>
   check_targets e rnd cx cy nowHit nowSpawn n s =
     (case addNewTarget e rnd nowSpawn None
             (register_hit nowHit i (pointer_distance cx cy (targets s ! i)) s) of
        None \<Rightarrow> None
      | Some s2 \<Rightarrow> Some (True, s2))"
proof (induction n)
  case 0
  then show ?case by simp
next
  case (Suc n)
  show ?case
  proof (cases "i = n")
    case True
    with Suc.prems show ?thesis by (simp add: Let_def)
  next
    case False
    with Suc.prems have "i < n" by simp
    moreover from Suc.prems False
    have "\<not> pointer_distance cx cy (targets s ! n) \<le> radius (targets s ! n)"
      by (metis \<open>i < n\<close> lessI)
    ultimately show ?thesis using Suc by (simp add: Let_def)
  qed
qed

lemma check_targets_cases:
  "check_targets e rnd cx cy nowHit nowSpawn n s = Some (b, s') \<Longrightarrow>
   (\<not> b \<and> s' = s \<and>
      (\<forall>i<n. \<not> pointer_distance cx cy (targets s ! i) \<le> radius (targets s ! i))) \<or>
   (b \<and> (\<exists>i<n. pointer_distance cx cy (targets s ! i) \<le> radius (targets s ! i) \<and>
        addNewTarget e rnd nowSpawn None
          (register_hit nowHit i (pointer_distance cx cy (targets s ! i)) s) = Some s'))"
proof (induction n)
  case 0
  then show ?case by simp
next
  case (Suc n)
  show ?case
  proof (cases "pointer_distance cx cy (targets s ! n) \<le> radius (targets s ! n)")
    case True
    with Suc.prems show ?thesis
      by (auto simp: Let_def split: option.splits)
  next
    case False
    with Suc.prems have "check_targets e rnd cx cy nowHit nowSpawn n s = Some (b, s')"
      by (simp add: Let_def)
    from Suc.IH [OF this] False show ?thesis
      by (auto simp: less_Suc_eq)
  qed
qed

lemma sparkle_loop_eval:
  "sparkle_loop rnd cx cy 0 s =
     s\<lparr>sparkles := sparkles s @
          [\<lparr>sx = cx, sy = cy, life = 1, angle = 0,
             speed = round_double (2 + round_double (rnd (randomCalls s) * 2)),
             rotation = rnd (randomCalls s + 1) * pi * 2\<rparr>,
           \<lparr>sx = cx, sy = cy, life = 1, angle = 2 * pi / 8,
             speed = round_double (2 + round_double (rnd (randomCalls s + 2) * 2)),
             rotation = rnd (randomCalls s + 3) * pi * 2\<rparr>,
           \<lparr>sx = cx, sy = cy, life = 1, angle = 4 * pi / 8,
             speed = round_double (2 + round_double (rnd (randomCalls s + 4) * 2)),
             rotation = rnd (randomCalls s + 5) * pi * 2\<rparr>,
           \<lparr>sx = cx, sy = cy, life = 1, angle = 6 * pi / 8,
             speed = round_double (2 + round_double (rnd (randomCalls s + 6) * 2)),
             rotation = rnd (randomCalls s + 7) * pi * 2\<rparr>,
           \<lparr>sx = cx, sy = cy, life = 1, angle = 8 * pi / 8,
             speed = round_double (2 + round_double (rnd (randomCalls s + 8) * 2)),
             rotation = rnd (randomCalls s + 9) * pi * 2\<rparr>,
           \<lparr>sx = cx, sy = cy, life = 1, angle = 10 * pi / 8,
             speed = round_double (2 + round_double (rnd (randomCalls s + 10) * 2)),
             rotation = rnd (randomCalls s + 11) * pi * 2\<rparr>,
           \<lparr>sx = cx, sy = cy, life = 1, angle = 12 * pi / 8,
             speed = round_double (2 + round_double (rnd (randomCalls s + 12) * 2)),
             rotation = rnd (randomCalls s + 13) * pi * 2\<rparr>,
           \<lparr>sx = cx, sy = cy, life = 1, angle = 14 * pi / 8,
             speed = round_double (2 + round_double (rnd (randomCalls s + 14) * 2)),
             rotation = rnd (randomCalls s + 15) * pi * 2\<rparr>],
        randomCalls := randomCalls s + 16\<rparr>"
  by (simp add: eval_nat_numeral)

lemma demo_click_hit:
  "handleCanvasClick screen rnd_demo 730 288 1500 1500 demo_session = Some demo_after_hit"
  by (simp add: handleCanvasClick_def demo_session_def demo_after_hit_def NET_Y_def screen_def
      register_hit_def calculatePoints_centre addNewTarget_def
      placement_loop_now round_valid_def round_x_def round_radius_def round_size_def
      round_start_def rnd_demo_def Let_def TARGET_SPAWN_Y_def
      overlapping_Cons_abs del: overlapping.simps(2))

lemma handleCanvasClick_hit:
  assumes "gameState s = Game" and "\<not> clickY > NET_Y e"
    and "i < length (targets s)"
    and "pointer_distance clickX clickY (targets s ! i) \<le> radius (targets s ! i)"
    and "\<forall>j. i < j \<and> j < length (targets s) \<longrightarrow>
           \<not> pointer_distance clickX clickY (targets s ! j) \<le> radius (targets s ! j)"
    and "handleCanvasClick e rnd clickX clickY nowHit nowSpawn s = Some s'"
  shows "addNewTarget e rnd nowSpawn None
           (register_hit nowHit i (pointer_distance clickX clickY (targets s ! i)) s) = Some s'"
proof -
  from check_targets_hit [OF assms(3) assms(4) assms(5)]
  have "check_targets e rnd clickX clickY nowHit nowSpawn (length (targets s)) s =
     (case addNewTarget e rnd nowSpawn None
             (register_hit nowHit i (pointer_distance clickX clickY (targets s ! i)) s) of
        None \<Rightarrow> None
      | Some s2 \<Rightarrow> Some (True, s2))" .
  with assms(1,2,6) show ?thesis
    by (auto simp: handleCanvasClick_def split: option.splits)
qed

lemma demo_click_19:
  "handleCanvasClick screen rnd_demo 882 288 1500 1500 demo_session = Some demo_after_19"
proof -
  have "sqrt (152\<^sup>2) = 152" by (simp only: real_sqrt_abs)
  then have "sqrt 23104 = 152" by simp
  then show ?thesis
    by (simp add: handleCanvasClick_def demo_session_def demo_after_19_def NET_Y_def screen_def
        register_hit_def calculatePoints_152_190 addNewTarget_def
        placement_loop_now round_valid_def round_x_def round_radius_def round_size_def
        round_start_def rnd_demo_def Let_def TARGET_SPAWN_Y_def
        overlapping_Cons_abs del: overlapping.simps(2))
qed

text \<open>
  Claim C1. A click outside the net that is resolved against the target at index \<open>i\<close>
  (the last target in the list that contains the pointer), at distance \<open>d \<le> radius\<close> from
  its centre. The accuracy is \<open>1 - d / radius\<close> as the code computes it, quotient and
  difference each rounded to a double, which is within \<open>2\<^sup>-\<^sup>5\<^sup>2\<close> of the exact value. When
  the accuracy is above the double \<open>0.95\<close> the score grows by 100 and the feedback is
  PERFECT; otherwise the score grows by the floor of the rounded product
  \<open>accuracy * 100\<close>, a number from 0 to 95, and the feedback is \<open>+\<close> followed by the decimal
  digits of that number. At the centre that is PERFECT and 100 points; at \<open>d = radius\<close> it
  is 0 points and the label \<open>+0\<close>.
\<close>

theorem hit_points:
  assumes "gameState s = Game" and "\<not> clickY > NET_Y e"
    and "i < length (targets s)"
    and "pointer_distance clickX clickY (targets s ! i) \<le> radius (targets s ! i)"
    and "\<forall>j. i < j \<and> j < length (targets s) \<longrightarrow>
           \<not> pointer_distance clickX clickY (targets s ! j) \<le> radius (targets s ! j)"
    and "0 < radius (targets s ! i)"
    and "handleCanvasClick e rnd clickX clickY nowHit nowSpawn s = Some s'"
  shows "\<exists>d r accuracy pts label.
     d = pointer_distance clickX clickY (targets s ! i) \<and> r = radius (targets s ! i) \<and>
     accuracy = round_double (1 - round_double (d / r)) \<and>
     \<bar>accuracy - (1 - d / r)\<bar> \<le> 1 / 2 ^ 52 \<and>
     (accuracy > round_double 0.95 \<longrightarrow> pts = 100 \<and> label = ''PERFECT'') \<and>
     (\<not> accuracy > round_double 0.95 \<longrightarrow>
        pts = \<lfloor>round_double (accuracy * 100)\<rfloor> \<and> 0 \<le> pts \<and> pts \<le> 95 \<and>
        label = CHR ''+'' #
          (if pts < 10 then [''0123456789'' ! nat pts]
           else [''0123456789'' ! nat (pts div 10), ''0123456789'' ! nat (pts mod 10)])) \<and>
     score s' = score s + pts \<and>
     feedback s' = feedback s @
       [\<lparr>fx = tx (targets s ! i), fy = ty (targets s ! i), ftext = label, points = pts,
         opacity = 1, isMiss = None\<rparr>] \<and>
     (d = 0 \<longrightarrow> pts = 100 \<and> label = ''PERFECT'') \<and>
     (d = r \<longrightarrow> pts = 0 \<and> label = ''+0'')"
proof -
  define d where "d = pointer_distance clickX clickY (targets s ! i)"
  define r where "r = radius (targets s ! i)"
  define accuracy where "accuracy = round_double (1 - round_double (d / r))"
  define pts where "pts = fst (calculatePoints d r)"
  define label where "label = snd (calculatePoints d r)"
  have r: "0 < r" using assms(6) by (simp add: r_def)
  have d: "0 \<le> d" "d \<le> r" using assms(4) by (simp_all add: d_def r_def)
  have spawn: "addNewTarget e rnd nowSpawn None (register_hit nowHit i d s) = Some s'"
    unfolding d_def by (rule handleCanvasClick_hit [OF assms(1-5) assms(7)])
  have "score s' = score (register_hit nowHit i d s)"
    "feedback s' = feedback (register_hit nowHit i d s)"
    by (rule addNewTarget_keeps [OF spawn])+
  then have eff: "score s' = score s + pts"
    "feedback s' = feedback s @
       [\<lparr>fx = tx (targets s ! i), fy = ty (targets s ! i), ftext = label, points = pts,
         opacity = 1, isMiss = None\<rparr>]"
    by (simp_all add: register_hit_fields pts_def label_def r_def)
  have err: "\<bar>accuracy - (1 - d / r)\<bar> \<le> 1 / 2 ^ 52"
    unfolding accuracy_def by (rule accuracy_error [OF r d])
  have perfect: "pts = 100 \<and> label = ''PERFECT''" if "accuracy > round_double 0.95"
    using that unfolding pts_def label_def accuracy_def
    by (simp add: calculatePoints_fst calculatePoints_snd)
  have low: "pts = \<lfloor>round_double (accuracy * 100)\<rfloor> \<and> 0 \<le> pts \<and> pts \<le> 95 \<and>
        label = CHR ''+'' #
          (if pts < 10 then [''0123456789'' ! nat pts]
           else [''0123456789'' ! nat (pts div 10), ''0123456789'' ! nat (pts mod 10)])"
    if "\<not> accuracy > round_double 0.95"
  proof -
    have no: "\<not> round_double (1 - round_double (d / r)) > round_double 0.95"
      using that unfolding accuracy_def .
    have p: "pts = \<lfloor>round_double (accuracy * 100)\<rfloor>"
      using no unfolding pts_def accuracy_def by (simp add: calculatePoints_fst)
    have l: "label = ''+'' @ toString pts"
      using no unfolding pts_def label_def accuracy_def
      by (simp add: calculatePoints_fst calculatePoints_snd)
    from points_low [OF r d no] have range: "0 \<le> pts" "pts \<le> 95"
      unfolding p accuracy_def by simp_all
    then have "toString pts =
        (if pts < 10 then [''0123456789'' ! nat pts]
         else [''0123456789'' ! nat (pts div 10), ''0123456789'' ! nat (pts mod 10)])"
      by (intro toString_two_digits) simp_all
    with p l range show ?thesis by simp
  qed
  have centre: "d = 0 \<longrightarrow> pts = 100 \<and> label = ''PERFECT''"
    using r by (simp add: pts_def label_def calculatePoints_centre)
  have edge: "d = r \<longrightarrow> pts = 0 \<and> label = ''+0''"
    using r by (simp add: pts_def label_def calculatePoints_edge)
  from err perfect low eff centre edge show ?thesis
    unfolding d_def r_def accuracy_def by blast
qed

theorem hit_points_witness:
  "handleCanvasClick screen rnd_demo 882 288 1500 1500 demo_session = Some demo_after_19 \<and>
   pointer_distance 882 288 (targets demo_session ! 1) = 152 \<and>
   radius (targets demo_session ! 1) = 190 \<and>
   score demo_after_19 = score demo_session + 19 \<and>
   map ftext (feedback demo_after_19) = [''+19''] \<and>
   map points (feedback demo_after_19) = [19]"
proof -
  have "sqrt (152\<^sup>2) = 152" by (simp only: real_sqrt_abs)
  then have s152: "sqrt 23104 = 152" by simp
  then have dist: "pointer_distance 882 288 (targets demo_session ! 1) = 152"
    by (simp add: demo_session_def)
  have rad: "radius (targets demo_session ! 1) = 190" by (simp add: demo_session_def)
  have "\<exists>d r accuracy pts label.
     d = pointer_distance 882 288 (targets demo_session ! 1) \<and>
     r = radius (targets demo_session ! 1) \<and>
     accuracy = round_double (1 - round_double (d / r)) \<and>
     \<bar>accuracy - (1 - d / r)\<bar> \<le> 1 / 2 ^ 52 \<and>
     (accuracy > round_double 0.95 \<longrightarrow> pts = 100 \<and> label = ''PERFECT'') \<and>
     (\<not> accuracy > round_double 0.95 \<longrightarrow>
        pts = \<lfloor>round_double (accuracy * 100)\<rfloor> \<and> 0 \<le> pts \<and> pts \<le> 95 \<and>
        label = CHR ''+'' #
          (if pts < 10 then [''0123456789'' ! nat pts]
           else [''0123456789'' ! nat (pts div 10), ''0123456789'' ! nat (pts mod 10)])) \<and>
     score demo_after_19 = score demo_session + pts \<and>
     feedback demo_after_19 = feedback demo_session @
       [\<lparr>fx = tx (targets demo_session ! 1), fy = ty (targets demo_session ! 1),
         ftext = label, points = pts, opacity = 1, isMiss = None\<rparr>] \<and>
     (d = 0 \<longrightarrow> pts = 100 \<and> label = ''PERFECT'') \<and>
     (d = r \<longrightarrow> pts = 0 \<and> label = ''+0'')"
  proof (rule hit_points [where s = demo_session and e = screen and i = 1 and clickX = 882
        and clickY = 288 and rnd = rnd_demo and nowHit = 1500 and nowSpawn = 1500
        and s' = demo_after_19])
    show "gameState demo_session = Game" by (simp add: demo_session_def)
    show "\<not> 288 > NET_Y screen" by (simp add: NET_Y_def screen_def)
    show "1 < length (targets demo_session)" by (simp add: demo_session_def)
    show "pointer_distance 882 288 (targets demo_session ! 1) \<le> radius (targets demo_session ! 1)"
      by (simp only: dist rad)
    show "\<forall>j. 1 < j \<and> j < length (targets demo_session) \<longrightarrow>
           \<not> pointer_distance 882 288 (targets demo_session ! j) \<le> radius (targets demo_session ! j)"
      by (simp add: demo_session_def)
    show "0 < radius (targets demo_session ! 1)" by (simp add: demo_session_def)
    show "handleCanvasClick screen rnd_demo 882 288 1500 1500 demo_session = Some demo_after_19"
      by (rule demo_click_19)
  qed
  then obtain pts label where
    sc: "score demo_after_19 = score demo_session + pts"
    and fb: "feedback demo_after_19 = feedback demo_session @
       [\<lparr>fx = tx (targets demo_session ! 1), fy = ty (targets demo_session ! 1),
         ftext = label, points = pts, opacity = 1, isMiss = None\<rparr>]"
    by blast
  have "score demo_after_19 = 19" "score demo_session = 0" "feedback demo_session = []"
    by (simp_all add: demo_after_19_def demo_session_def)
  with sc have "pts = 19" by simp
  moreover from fb have "ftext (last (feedback demo_after_19)) = label" by simp
  then have "label = ''+19''" by (simp add: demo_after_19_def)
  ultimately show ?thesis
    using sc fb dist rad demo_click_19 \<open>feedback demo_session = []\<close> by simp
qed

lemma sparkle_loop_keeps:
  "score (sparkle_loop rnd cx cy 0 s) = score s"
  "targets (sparkle_loop rnd cx cy 0 s) = targets s"
  "feedback (sparkle_loop rnd cx cy 0 s) = feedback s"
  "totalHits (sparkle_loop rnd cx cy 0 s) = totalHits s"
  "perfectHits (sparkle_loop rnd cx cy 0 s) = perfectHits s"
  "reactionTimes (sparkle_loop rnd cx cy 0 s) = reactionTimes s"
  "gameState (sparkle_loop rnd cx cy 0 s) = gameState s"
  "gameStats (sparkle_loop rnd cx cy 0 s) = gameStats s"
  "frameRequested (sparkle_loop rnd cx cy 0 s) = frameRequested s"
  "startTime (sparkle_loop rnd cx cy 0 s) = startTime s"
  "difficulty (sparkle_loop rnd cx cy 0 s) = difficulty s"
  "timeLeft (sparkle_loop rnd cx cy 0 s) = timeLeft s"
  by (simp_all add: sparkle_loop_eval del: sparkle_loop.simps)

lemma handleCanvasClick_cases:
  assumes "gameState s = Game" and "\<not> clickY > NET_Y e"
    and "handleCanvasClick e rnd clickX clickY nowHit nowSpawn s = Some s'"
  shows "(s' = sparkle_loop rnd clickX clickY 0
                 (s\<lparr>feedback := feedback s @
                      [\<lparr>fx = clickX, fy = clickY, ftext = ''MISS'', points = 0, opacity = 1,
                        isMiss = Some True\<rparr>]\<rparr>) \<and>
          (\<forall>i<length (targets s).
              \<not> pointer_distance clickX clickY (targets s ! i) \<le> radius (targets s ! i))) \<or>
         (\<exists>i<length (targets s).
            pointer_distance clickX clickY (targets s ! i) \<le> radius (targets s ! i) \<and>
            addNewTarget e rnd nowSpawn None
              (register_hit nowHit i (pointer_distance clickX clickY (targets s ! i)) s) = Some s')"
proof -
  from assms obtain b s1 where
    ct: "check_targets e rnd clickX clickY nowHit nowSpawn (length (targets s)) s = Some (b, s1)"
    and res: "s' = (if \<not> b then sparkle_loop rnd clickX clickY 0
                 (s1\<lparr>feedback := feedback s1 @
                      [\<lparr>fx = clickX, fy = clickY, ftext = ''MISS'', points = 0, opacity = 1,
                        isMiss = Some True\<rparr>]\<rparr>) else s1)"
    by (auto simp: handleCanvasClick_def split: option.splits if_splits)
  from check_targets_cases [OF ct] res show ?thesis by auto
qed

lemma hit_awards_range:
  assumes "gameState s = Game" and "\<not> clickY > NET_Y e"
    and "\<forall>t \<in> set (targets s). 0 < radius t"
    and "handleCanvasClick e rnd clickX clickY nowHit nowSpawn s = Some s'"
    and "totalHits s' \<noteq> totalHits s"
  shows "(score s' - score s = 100 \<or> (0 \<le> score s' - score s \<and> score s' - score s \<le> 95)) \<and>
         score s' - score s \<notin> {96..99} \<and>
         points (last (feedback s')) = score s' - score s"
proof -
  from handleCanvasClick_cases [OF assms(1,2,4)] assms(5)
  obtain i where i: "i < length (targets s)"
    and inside: "pointer_distance clickX clickY (targets s ! i) \<le> radius (targets s ! i)"
    and spawn: "addNewTarget e rnd nowSpawn None
              (register_hit nowHit i (pointer_distance clickX clickY (targets s ! i)) s) = Some s'"
    by (auto simp: sparkle_loop_keeps)
  define d where "d = pointer_distance clickX clickY (targets s ! i)"
  define r where "r = radius (targets s ! i)"
  from i assms(3) have r: "0 < r" by (simp add: r_def)
  have d: "0 \<le> d" "d \<le> r" using inside by (simp_all add: d_def r_def)
  have "score s' = score (register_hit nowHit i d s)"
    "feedback s' = feedback (register_hit nowHit i d s)"
    unfolding d_def by (rule addNewTarget_keeps [OF spawn])+
  then have "score s' - score s = fst (calculatePoints d r)"
    "points (last (feedback s')) = fst (calculatePoints d r)"
    by (simp_all add: register_hit_fields r_def)
  with calculatePoints_range [OF r d] show ?thesis by auto
qed

text \<open>
  Claim C2. During a game, a click below the net line (\<open>clickY > NET_Y\<close>) returns with the
  score lowered by 10 but not below 0, one zero-point MISS feedback event appended at the
  pointer, and the targets, hit counters, reaction times and sparkles untouched, whatever
  targets lie under the pointer.
\<close>

theorem penalty_zone:
  assumes "gameState s = Game" and "clickY > NET_Y e"
  shows "\<exists>s'. handleCanvasClick e rnd clickX clickY nowHit nowSpawn s = Some s' \<and>
           score s' = max 0 (score s - 10) \<and> 0 \<le> score s' \<and>
           feedback s' = feedback s @
             [\<lparr>fx = clickX, fy = clickY, ftext = ''MISS'', points = 0, opacity = 1,
               isMiss = None\<rparr>] \<and>
           targets s' = targets s \<and> totalHits s' = totalHits s \<and>
           perfectHits s' = perfectHits s \<and> reactionTimes s' = reactionTimes s \<and>
           sparkles s' = sparkles s \<and> nextTargetId s' = nextTargetId s"
  using assms by (simp add: handleCanvasClick_def)

theorem penalty_zone_witness:
  "gameState demo_after_hit = Game \<and> 470 > NET_Y screen \<and>
   pointer_distance 190 470 (targets demo_after_hit ! 0) \<le> radius (targets demo_after_hit ! 0) \<and>
   (\<exists>s'. handleCanvasClick screen rnd_demo 190 470 1600 1600 demo_after_hit = Some s' \<and>
      score s' = 90 \<and> targets s' = targets demo_after_hit \<and>
      totalHits s' = totalHits demo_after_hit \<and> map ftext (feedback s') = [''PERFECT'', ''MISS''])"
proof -
  have g: "gameState demo_after_hit = Game"
    by (simp add: demo_after_hit_def demo_session_def)
  have n: "470 > NET_Y screen" by (simp add: NET_Y_def screen_def)
  have "sqrt (182\<^sup>2) = 182" by (simp only: real_sqrt_abs)
  then have inside: "pointer_distance 190 470 (targets demo_after_hit ! 0)
      \<le> radius (targets demo_after_hit ! 0)"
    by (simp add: demo_after_hit_def demo_session_def)
  from penalty_zone [OF g n, of rnd_demo 190 1600 1600] g n inside show ?thesis
    by (auto simp: demo_after_hit_def demo_session_def)
qed

lemma handleCanvasClick_miss:
  assumes "gameState s = Game" and "\<not> clickY > NET_Y e"
    and "\<forall>t \<in> set (targets s). \<not> pointer_distance clickX clickY t \<le> radius t"
  shows "handleCanvasClick e rnd clickX clickY nowHit nowSpawn s =
           Some (sparkle_loop rnd clickX clickY 0
                 (s\<lparr>feedback := feedback s @
                      [\<lparr>fx = clickX, fy = clickY, ftext = ''MISS'', points = 0, opacity = 1,
                        isMiss = Some True\<rparr>]\<rparr>))"
proof -
  from assms(3)
  have "\<forall>i<length (targets s).
          \<not> pointer_distance clickX clickY (targets s ! i) \<le> radius (targets s ! i)"
    by simp
  then have "check_targets e rnd clickX clickY nowHit nowSpawn (length (targets s)) s =
      Some (False, s)"
    by (rule check_targets_none)
  with assms(1,2) show ?thesis
    by (simp add: handleCanvasClick_def del: sparkle_loop.simps)
qed

text \<open>The speed of a sparkle, \<^verbatim>\<open>2 + Math.random() * 2\<close> in doubles.\<close>

lemma speed_bounds:
  assumes "0 \<le> x" and "x < 1"
  shows "2 \<le> round_double (2 + round_double (x * 2))"
    "round_double (2 + round_double (x * 2)) \<le> 4"
proof -
  from assms have p: "0 \<le> x * 2" "x * 2 \<le> 2" by simp_all
  from p(1) have q0: "0 \<le> round_double (x * 2)" by (rule round_double_nonneg)
  from round_double_mono [OF p] have q2: "round_double (x * 2) \<le> 2"
    by (simp only: round_double_2)
  from q0 have "(0::real) \<le> 2" "2 \<le> 2 + round_double (x * 2)" by simp_all
  from round_double_mono [OF this] show "2 \<le> round_double (2 + round_double (x * 2))"
    by (simp only: round_double_2)
  from q0 q2 have "0 \<le> 2 + round_double (x * 2)" "2 + round_double (x * 2) \<le> 4"
    by simp_all
  from round_double_mono [OF this] show "round_double (2 + round_double (x * 2)) \<le> 4"
    by (simp only: round_double_4)
qed

lemma speed_below_4:
  assumes "0 \<le> x" and "x \<le> 1 - 1 / 2 ^ 52"
  shows "round_double (2 + round_double (x * 2)) < 4"
proof -
  have A: "round_double (2 - 1 / 2 ^ 51) = 2 - 1 / 2 ^ 51"
    by (subst round_double_eqI [of 0]) (simp_all add: round_even_def)
  have B: "round_double (4 - 1 / 2 ^ 51) = 4 - 1 / 2 ^ 51"
    by (subst round_double_eqI [of 1]) (simp_all add: round_even_def)
  from assms have p: "0 \<le> x * 2" "x * 2 \<le> 2 - 1 / 2 ^ 51" by simp_all
  from p(1) have q0: "0 \<le> round_double (x * 2)" by (rule round_double_nonneg)
  from round_double_mono [OF p] have q: "round_double (x * 2) \<le> 2 - 1 / 2 ^ 51"
    by (simp only: A)
  from q0 q have "0 \<le> 2 + round_double (x * 2)"
    "2 + round_double (x * 2) \<le> 4 - 1 / 2 ^ 51"
    by simp_all
  from round_double_mono [OF this]
  have "round_double (2 + round_double (x * 2)) \<le> 4 - 1 / 2 ^ 51"
    by (simp only: B)
  then show ?thesis by simp
qed

lemma speed_top: "round_double (2 + round_double (rnd_top k * 2)) = 4"
proof -
  have T: "round_double ((1 - 1 / 2 ^ 53) * 2) = 2 - 1 / 2 ^ 52"
    by (subst round_double_eqI [of 0]) (simp_all add: round_even_def)
  have F: "round_double (2 + (2 - 1 / 2 ^ 52)) = 4"
    by (subst round_double_eqI [of 1]) (simp_all add: round_even_def)
  show ?thesis by (simp only: rnd_top_def T F)
qed

lemma rnd_top_range: "\<forall>i. 0 \<le> rnd_top i \<and> rnd_top i < 1"
  by (simp add: rnd_top_def)

text \<open>
  Claim C6, as the code has it. During a game, a click above the net line that no live
  target contains returns with exactly 8 sparkles appended, all at the pointer, with the
  angles \<open>0, 2\<pi>/8, 4\<pi>/8, \<dots>, 14\<pi>/8\<close> in this order and each speed in the closed range
  \<open>[2, 4]\<close>, and with one zero-point MISS feedback event flagged as a miss appended; the
  score, the targets, the hit counters and the reaction times are unchanged. The speeds
  are below 4 when no random number exceeds \<open>1 - 2\<^sup>-\<^sup>5\<^sup>2\<close>. The random numbers are taken
  from \<open>[0, 1)\<close>.
\<close>

theorem miss_sparkles:
  assumes "gameState s = Game" and "\<not> clickY > NET_Y e"
    and "\<forall>t \<in> set (targets s). \<not> pointer_distance clickX clickY t \<le> radius t"
    and "\<forall>i. 0 \<le> rnd i \<and> rnd i < 1"
  shows "\<exists>s' new.
     handleCanvasClick e rnd clickX clickY nowHit nowSpawn s = Some s' \<and>
     sparkles s' = sparkles s @ new \<and> length new = 8 \<and>
     map angle new =
       [0, 2 * pi / 8, 4 * pi / 8, 6 * pi / 8, 8 * pi / 8, 10 * pi / 8, 12 * pi / 8, 14 * pi / 8] \<and>
     (\<forall>p \<in> set new. sx p = clickX \<and> sy p = clickY \<and> life p = 1 \<and> 2 \<le> speed p \<and> speed p \<le> 4) \<and>
     ((\<forall>i. rnd i \<le> 1 - 1 / 2 ^ 52) \<longrightarrow> (\<forall>p \<in> set new. speed p < 4)) \<and>
     feedback s' = feedback s @
       [\<lparr>fx = clickX, fy = clickY, ftext = ''MISS'', points = 0, opacity = 1,
         isMiss = Some True\<rparr>] \<and>
     score s' = score s \<and> targets s' = targets s \<and> totalHits s' = totalHits s \<and>
     perfectHits s' = perfectHits s \<and> reactionTimes s' = reactionTimes s"
proof -
  from assms(4) have r0: "0 \<le> rnd k" and r1: "rnd k < 1" for k
    by auto
  have lo: "2 \<le> round_double (2 + round_double (rnd k * 2))"
    and hi: "round_double (2 + round_double (rnd k * 2)) \<le> 4" for k
    by (rule speed_bounds [OF r0 r1])+
  have st: "round_double (2 + round_double (rnd k * 2)) < 4"
    if "\<forall>i. rnd i \<le> 1 - 1 / 2 ^ 52" for k
  proof -
    from that have "rnd k \<le> 1 - 1 / 2 ^ 52" by blast
    with r0 show ?thesis by (rule speed_below_4)
  qed
  let ?new = "[\<lparr>sx = clickX, sy = clickY, life = 1, angle = 0,
             speed = round_double (2 + round_double (rnd (randomCalls s) * 2)),
             rotation = rnd (randomCalls s + 1) * pi * 2\<rparr>,
           \<lparr>sx = clickX, sy = clickY, life = 1, angle = 2 * pi / 8,
             speed = round_double (2 + round_double (rnd (randomCalls s + 2) * 2)),
             rotation = rnd (randomCalls s + 3) * pi * 2\<rparr>,
           \<lparr>sx = clickX, sy = clickY, life = 1, angle = 4 * pi / 8,
             speed = round_double (2 + round_double (rnd (randomCalls s + 4) * 2)),
             rotation = rnd (randomCalls s + 5) * pi * 2\<rparr>,
           \<lparr>sx = clickX, sy = clickY, life = 1, angle = 6 * pi / 8,
             speed = round_double (2 + round_double (rnd (randomCalls s + 6) * 2)),
             rotation = rnd (randomCalls s + 7) * pi * 2\<rparr>,
           \<lparr>sx = clickX, sy = clickY, life = 1, angle = 8 * pi / 8,
             speed = round_double (2 + round_double (rnd (randomCalls s + 8) * 2)),
             rotation = rnd (randomCalls s + 9) * pi * 2\<rparr>,
           \<lparr>sx = clickX, sy = clickY, life = 1, angle = 10 * pi / 8,
             speed = round_double (2 + round_double (rnd (randomCalls s + 10) * 2)),
             rotation = rnd (randomCalls s + 11) * pi * 2\<rparr>,
           \<lparr>sx = clickX, sy = clickY, life = 1, angle = 12 * pi / 8,
             speed = round_double (2 + round_double (rnd (randomCalls s + 12) * 2)),
             rotation = rnd (randomCalls s + 13) * pi * 2\<rparr>,
           \<lparr>sx = clickX, sy = clickY, life = 1, angle = 14 * pi / 8,
             speed = round_double (2 + round_double (rnd (randomCalls s + 14) * 2)),
             rotation = rnd (randomCalls s + 15) * pi * 2\<rparr>]"
  let ?s' = "sparkle_loop rnd clickX clickY 0
                 (s\<lparr>feedback := feedback s @
                      [\<lparr>fx = clickX, fy = clickY, ftext = ''MISS'', points = 0, opacity = 1,
                        isMiss = Some True\<rparr>]\<rparr>)"
  have ret: "handleCanvasClick e rnd clickX clickY nowHit nowSpawn s = Some ?s'"
    by (rule handleCanvasClick_miss [OF assms(1-3)])
  have sp: "sparkles ?s' = sparkles s @ ?new"
    by (simp only: sparkle_loop_eval) simp
  have len: "length ?new = 8" by simp
  have ang: "map angle ?new =
       [0, 2 * pi / 8, 4 * pi / 8, 6 * pi / 8, 8 * pi / 8, 10 * pi / 8, 12 * pi / 8, 14 * pi / 8]"
    by simp
  have rng: "\<forall>p \<in> set ?new. sx p = clickX \<and> sy p = clickY \<and> life p = 1 \<and>
      2 \<le> speed p \<and> speed p \<le> 4"
    by (simp add: lo hi)
  have strict: "(\<forall>i. rnd i \<le> 1 - 1 / 2 ^ 52) \<longrightarrow> (\<forall>p \<in> set ?new. speed p < 4)"
  proof
    assume "\<forall>i. rnd i \<le> 1 - 1 / 2 ^ 52"
    from st [OF this] show "\<forall>p \<in> set ?new. speed p < 4" by simp
  qed
  have rest: "feedback ?s' = feedback s @
       [\<lparr>fx = clickX, fy = clickY, ftext = ''MISS'', points = 0, opacity = 1,
         isMiss = Some True\<rparr>]"
    "score ?s' = score s" "targets ?s' = targets s" "totalHits ?s' = totalHits s"
    "perfectHits ?s' = perfectHits s" "reactionTimes ?s' = reactionTimes s"
    by (simp_all add: sparkle_loop_keeps del: sparkle_loop.simps)
  show ?thesis
    by (intro exI [of _ ?s'] exI [of _ ?new] conjI ret sp len ang rng strict rest)
qed

theorem miss_sparkles_witness:
  "gameState demo_session = Game \<and> \<not> 100 > NET_Y screen \<and>
   length (targets demo_session) = 2 \<and>
   \<not> pointer_distance 460 100 (targets demo_session ! 0) \<le> radius (targets demo_session ! 0) \<and>
   \<not> pointer_distance 460 100 (targets demo_session ! 1) \<le> radius (targets demo_session ! 1) \<and>
   (\<forall>i. 0 \<le> rnd_demo i \<and> rnd_demo i < 1) \<and>
   (\<exists>s'. handleCanvasClick screen rnd_demo 460 100 1500 1500 demo_session = Some s' \<and>
      length (sparkles s') = 8 \<and> map ftext (feedback s') = [''MISS''] \<and>
      score s' = 0 \<and> targets s' = targets demo_session)"
proof -
  have g: "gameState demo_session = Game" by (simp add: demo_session_def)
  have n: "\<not> 100 > NET_Y screen" by (simp add: NET_Y_def screen_def)
  have "(190::real) < sqrt 108244"
    by (rule real_less_rsqrt) simp
  then have out: "\<forall>t \<in> set (targets demo_session). \<not> pointer_distance 460 100 t \<le> radius t"
    by (simp add: demo_session_def)
  from miss_sparkles [OF g n out rnd_demo_range, of 1500 1500] obtain s' new where
    "handleCanvasClick screen rnd_demo 460 100 1500 1500 demo_session = Some s'"
    "sparkles s' = sparkles demo_session @ new" "length new = 8"
    "feedback s' = feedback demo_session @
       [\<lparr>fx = 460, fy = 100, ftext = ''MISS'', points = 0, opacity = 1, isMiss = Some True\<rparr>]"
    "score s' = score demo_session" "targets s' = targets demo_session"
    by blast
  moreover from out have "length (targets demo_session) = 2"
    "\<not> pointer_distance 460 100 (targets demo_session ! 0) \<le> radius (targets demo_session ! 0)"
    "\<not> pointer_distance 460 100 (targets demo_session ! 1) \<le> radius (targets demo_session ! 1)"
    by (simp_all add: demo_session_def)
  ultimately show ?thesis
    using g n rnd_demo_range by (simp add: demo_session_def)
qed

text \<open>
  Claim C6 as stated fails: when \<^verbatim>\<open>Math.random()\<close> returns the largest double below 1, the
  sum \<open>2 + Math.random() * 2\<close> is a tie between two doubles and rounds to 4, so the speed of
  each of the 8 sparkles is exactly 4.
\<close>

theorem miss_speed_reaches_four:
  "0 \<le> rnd_top 0 \<and> rnd_top 0 < 1 \<and> gameState demo_session = Game \<and>
   handleCanvasClick screen rnd_top 460 100 1500 1500 demo_session = Some demo_miss_top \<and>
   map speed (sparkles demo_miss_top) = [4, 4, 4, 4, 4, 4, 4, 4]"
proof -
  have g: "gameState demo_session = Game" by (simp add: demo_session_def)
  have n: "\<not> 100 > NET_Y screen" by (simp add: NET_Y_def screen_def)
  have "(190::real) < sqrt 108244"
    by (rule real_less_rsqrt) simp
  then have out: "\<forall>t \<in> set (targets demo_session). \<not> pointer_distance 460 100 t \<le> radius t"
    by (simp add: demo_session_def)
  have ret: "handleCanvasClick screen rnd_top 460 100 1500 1500 demo_session = Some demo_miss_top"
    unfolding demo_miss_top_def by (rule handleCanvasClick_miss [OF g n out])
  have sp: "map speed (sparkles demo_miss_top) = [4, 4, 4, 4, 4, 4, 4, 4]"
    unfolding demo_miss_top_def
    by (simp only: sparkle_loop_eval speed_top) (simp add: demo_session_def)
  from rnd_top_range g ret sp show ?thesis by simp
qed

subsection \<open>\<^verbatim>\<open>draw\<close> and \<^verbatim>\<open>gameLoop\<close>\<close>

lemma foldl_plus_sum_list: "foldl (+) a xs = a + sum_list (xs :: int list)"
  by (induction xs arbitrary: a) simp_all

lemma draw_keeps:
  "length (targets (draw e s)) = length (targets s)"
  "score (draw e s) = score s" "perfectHits (draw e s) = perfectHits s"
  "totalHits (draw e s) = totalHits s" "reactionTimes (draw e s) = reactionTimes s"
  "gameState (draw e s) = gameState s" "difficulty (draw e s) = difficulty s"
  "gameStats (draw e s) = gameStats s" "startTime (draw e s) = startTime s"
  "frameRequested (draw e s) = frameRequested s" "timeLeft (draw e s) = timeLeft s"
  by (simp_all add: draw_def)

lemma gameLoop_timeLeft:
  "timeLeft (gameLoop e nowElapsed nowTime s) =
     max 0 (60 - real_of_int (nowElapsed - startTime s) / 1000)"
  by (simp add: gameLoop_def Let_def draw_keeps)

lemma gameLoop_running:
  assumes "timeLeft (gameLoop e nowElapsed nowTime s) > 0"
  shows "gameState (gameLoop e nowElapsed nowTime s) = gameState s"
    "frameRequested (gameLoop e nowElapsed nowTime s)"
    "gameStats (gameLoop e nowElapsed nowTime s) = gameStats s"
  using assms by (simp_all add: gameLoop_def Let_def draw_keeps split: if_splits)

lemma gameLoop_ending:
  assumes "\<not> timeLeft (gameLoop e nowElapsed nowTime s) > 0"
  shows "gameState (gameLoop e nowElapsed nowTime s) = End"
    "\<not> frameRequested (gameLoop e nowElapsed nowTime s)"
    "gameStats (gameLoop e nowElapsed nowTime s) = Some
          \<lparr>finalScore = score s, statsPerfectHits = perfectHits s,
           statsTotalHits = totalHits s, statsReactionTimes = reactionTimes s,
           averageReactionTime =
             (if reactionTimes s = [] then 0
              else real_of_int (sum_list (reactionTimes s)) / real (length (reactionTimes s))),
           mode = difficulty s\<rparr>"
  using assms
  by (simp_all add: gameLoop_def Let_def draw_keeps foldl_plus_sum_list split: if_splits)

lemma gameLoop_keeps:
  "length (targets (gameLoop e nowElapsed nowTime s)) = length (targets s)"
  "score (gameLoop e nowElapsed nowTime s) = score s"
  "perfectHits (gameLoop e nowElapsed nowTime s) = perfectHits s"
  "totalHits (gameLoop e nowElapsed nowTime s) = totalHits s"
  "reactionTimes (gameLoop e nowElapsed nowTime s) = reactionTimes s"
  "difficulty (gameLoop e nowElapsed nowTime s) = difficulty s"
  "startTime (gameLoop e nowElapsed nowTime s) = startTime s"
  by (simp_all add: gameLoop_def Let_def draw_keeps)

subsection \<open>Sessions\<close>

lemma initializeGame_Some:
  assumes "initializeGame e rnd now1 now2 d s0 = Some s1"
  shows "length (targets s1) = 2" "reactionTimes s1 = []" "totalHits s1 = 0"
    "gameState s1 = Game" "score s1 = 0" "perfectHits s1 = 0" "difficulty s1 = d"
proof -
  let ?s = "s0\<lparr>difficulty := d, score := 0, timeLeft := 60, targets := [],
                 feedback := [], sparkles := [], nextTargetId := 0, perfectHits := 0,
                 totalHits := 0, mousePos := (0, 0), reactionTimes := []\<rparr>"
  from assms obtain sa sb where
    a: "addNewTarget e rnd now1 (Some d) ?s = Some sa"
    and b: "addNewTarget e rnd now2 (Some d) sa = Some sb"
    and s1: "s1 = sb\<lparr>gameState := Game\<rparr>"
    by (auto simp: initializeGame_def Let_def split: option.splits)
  note ka = addNewTarget_keeps [OF a] and kb = addNewTarget_keeps [OF b]
  show "length (targets s1) = 2" using ka(13) kb(13) s1 by simp
  show "reactionTimes s1 = []" using ka(6) kb(6) s1 by simp
  show "totalHits s1 = 0" using ka(5) kb(5) s1 by simp
  show "gameState s1 = Game" using s1 by simp
  show "score s1 = 0" using ka(1) kb(1) s1 by simp
  show "perfectHits s1 = 0" using ka(4) kb(4) s1 by simp
  show "difficulty s1 = d" using ka(8) kb(8) s1 by simp
qed

lemma session_inv_start:
  assumes "initializeGame e rnd now1 now2 d s0 = Some s1"
  shows "session_inv now (gameLoopEffect now s1)"
  using initializeGame_Some [OF assms]
  by (simp add: session_inv_def gameLoopEffect_def)

lemma handleCanvasClick_keeps:
  assumes "handleCanvasClick e rnd clickX clickY nowHit nowSpawn s = Some s'"
  shows "length (targets s') = length (targets s)"
    "length (reactionTimes s') - totalHits s' = length (reactionTimes s) - totalHits s"
    "totalHits s' - length (reactionTimes s') = totalHits s - length (reactionTimes s)"
    "gameState s' = gameState s" "gameStats s' = gameStats s"
    "frameRequested s' = frameRequested s" "startTime s' = startTime s"
    "gameState s \<noteq> Game \<longrightarrow> s' = s"
proof -
  consider (off) "gameState s \<noteq> Game"
    | (net) "gameState s = Game" "clickY > NET_Y e"
    | (miss) "gameState s = Game" "\<not> clickY > NET_Y e"
        "s' = sparkle_loop rnd clickX clickY 0
                 (s\<lparr>feedback := feedback s @
                      [\<lparr>fx = clickX, fy = clickY, ftext = ''MISS'', points = 0, opacity = 1,
                        isMiss = Some True\<rparr>]\<rparr>)"
    | (hit) i where "gameState s = Game" "i < length (targets s)"
        "addNewTarget e rnd nowSpawn None
              (register_hit nowHit i (pointer_distance clickX clickY (targets s ! i)) s) = Some s'"
    using handleCanvasClick_cases [OF _ _ assms] by blast
  then have "length (targets s') = length (targets s) \<and>
    length (reactionTimes s') - totalHits s' = length (reactionTimes s) - totalHits s \<and>
    totalHits s' - length (reactionTimes s') = totalHits s - length (reactionTimes s) \<and>
    gameState s' = gameState s \<and> gameStats s' = gameStats s \<and>
    frameRequested s' = frameRequested s \<and> startTime s' = startTime s \<and>
    (gameState s \<noteq> Game \<longrightarrow> s' = s)"
  proof cases
    case off
    with assms show ?thesis by (simp add: handleCanvasClick_def)
  next
    case net
    with assms show ?thesis by (auto simp: handleCanvasClick_def)
  next
    case miss
    then show ?thesis by (simp add: sparkle_loop_keeps del: sparkle_loop.simps)
  next
    case hit
    from addNewTarget_keeps [OF hit(3)] hit(1,2) show ?thesis
      by (simp add: register_hit_fields)
  qed
  then show "length (targets s') = length (targets s)"
    "length (reactionTimes s') - totalHits s' = length (reactionTimes s) - totalHits s"
    "totalHits s' - length (reactionTimes s') = totalHits s - length (reactionTimes s)"
    "gameState s' = gameState s" "gameStats s' = gameStats s"
    "frameRequested s' = frameRequested s" "startTime s' = startTime s"
    "gameState s \<noteq> Game \<longrightarrow> s' = s"
    by simp_all
qed


lemma session_inv_step:
  assumes "session_inv start s" and "step rnd s ev = Some s'"
  shows "session_inv start s'"
proof (cases ev)
  case (Click e clickX clickY nowHit nowSpawn)
  with assms(2) have h: "handleCanvasClick e rnd clickX clickY nowHit nowSpawn s = Some s'"
    by simp
  show ?thesis
  proof (cases "gameState s = Game")
    case True
    from handleCanvasClick_keeps [OF h] assms(1) True show ?thesis
      by (simp add: session_inv_def)
  next
    case False
    with handleCanvasClick_keeps(8) [OF h] assms(1) show ?thesis by simp
  qed
next
  case (MouseMove x y)
  with assms show ?thesis by (auto simp: handleMouseMove_def session_inv_def)
next
  case (Frame e nowElapsed nowTime)
  show ?thesis
  proof (cases "frameRequested s")
    case False
    with Frame assms show ?thesis by simp
  next
    case True
    with Frame assms(2) have s': "s' = gameLoop e nowElapsed nowTime s" by simp
    show ?thesis
    proof (cases "timeLeft (gameLoop e nowElapsed nowTime s) > 0")
      case True
      from gameLoop_running [OF True] assms(1) \<open>frameRequested s\<close> show ?thesis
        unfolding s' by (simp add: session_inv_def gameLoop_keeps)
    next
      case False
      from gameLoop_ending [OF False] assms(1) show ?thesis
        unfolding s' by (simp add: session_inv_def gameLoop_keeps)
    qed
  qed
qed

lemma session_inv_run:
  "session_inv start s \<Longrightarrow> run rnd s evs = Some s' \<Longrightarrow> session_inv start s'"
proof (induction evs arbitrary: s)
  case Nil
  then show ?case by simp
next
  case (Cons ev evs)
  from Cons.prems(2) obtain s1 where "step rnd s ev = Some s1" "run rnd s1 evs = Some s'"
    by (auto split: option.splits)
  with Cons.IH session_inv_step [OF Cons.prems(1)] show ?case by blast
qed

lemma ended_step:
  assumes "session_inv start s" and "gameState s = End" and "step rnd s ev = Some s'"
  shows "gameState s' = End \<and> gameStats s' = gameStats s \<and> \<not> frameRequested s'"
proof (cases ev)
  case (Click e clickX clickY nowHit nowSpawn)
  with assms show ?thesis by (simp add: handleCanvasClick_def session_inv_def)
next
  case (MouseMove x y)
  with assms show ?thesis by (auto simp: handleMouseMove_def session_inv_def)
next
  case (Frame e nowElapsed nowTime)
  with assms show ?thesis by (auto simp: session_inv_def)
qed

lemma demo_run_click:
  "run rnd_demo demo_session [Click screen 730 288 1500 1500, Frame e n1 n2] =
     Some (gameLoop e n1 n2 demo_after_hit)"
proof -
  have "frameRequested demo_after_hit" by (simp add: demo_after_hit_def demo_session_def)
  then show ?thesis by (simp add: demo_click_hit)
qed









text \<open>
  Claim C7. In every state of a session that has ended, the statistics are the snapshot of
  the session: as many reaction times as hits, and an average reaction time that is 0
  when there was no hit and otherwise the sum of the recorded reaction times divided by
  their number.
\<close>

theorem end_statistics:
  assumes "initializeGame e rnd now1 now2 d s0 = Some s1"
    and "run rnd (gameLoopEffect now s1) evs = Some s"
    and "gameState s = End"
  shows "\<exists>st. gameStats s = Some st \<and>
           statsReactionTimes st = reactionTimes s \<and> statsTotalHits st = totalHits s \<and>
           length (statsReactionTimes st) = statsTotalHits st \<and>
           averageReactionTime st =
             (if statsTotalHits st = 0 then 0
              else real_of_int (sum_list (statsReactionTimes st)) /
                   real (length (statsReactionTimes st)))"
proof -
  from session_inv_run [OF session_inv_start [OF assms(1)] assms(2)]
  have inv: "session_inv now s" .
  with assms(3) have "length (reactionTimes s) = totalHits s" "gameStats s = Some
          \<lparr>finalScore = score s, statsPerfectHits = perfectHits s,
           statsTotalHits = totalHits s, statsReactionTimes = reactionTimes s,
           averageReactionTime =
             (if reactionTimes s = [] then 0
              else real_of_int (sum_list (reactionTimes s)) / real (length (reactionTimes s))),
           mode = difficulty s\<rparr>"
    by (simp_all add: session_inv_def)
  then show ?thesis by auto
qed

lemma demo_ended:
  "gameState (gameLoop screen 61000 61000 demo_after_hit) = End"
proof -
  have "\<not> timeLeft (gameLoop screen 61000 61000 demo_after_hit) > 0"
    by (simp add: gameLoop_timeLeft demo_after_hit_def demo_session_def)
  then show ?thesis by (rule gameLoop_ending)
qed

theorem end_statistics_witness:
  "\<exists>s st. run rnd_demo (gameLoopEffect 1000 (demo_session\<lparr>startTime := 0, frameRequested := False\<rparr>))
       [Click screen 730 288 1500 1500, Frame screen 61000 61000] = Some s \<and>
     gameState s = End \<and> gameStats s = Some st \<and>
     statsTotalHits st = 1 \<and> statsReactionTimes st = [500] \<and> averageReactionTime st = 500"
proof -
  let ?s = "gameLoop screen 61000 61000 demo_after_hit"
  have r: "run rnd_demo (gameLoopEffect 1000 (demo_session\<lparr>startTime := 0, frameRequested := False\<rparr>))
     [Click screen 730 288 1500 1500, Frame screen 61000 61000] = Some ?s"
    by (simp only: demo_session_started demo_run_click)
  from end_statistics [OF demo_session_built r demo_ended] obtain st where
    st: "gameStats ?s = Some st" "statsReactionTimes st = reactionTimes ?s"
      "statsTotalHits st = totalHits ?s"
      "averageReactionTime st =
             (if statsTotalHits st = 0 then 0
              else real_of_int (sum_list (statsReactionTimes st)) /
                   real (length (statsReactionTimes st)))"
    by blast
  have "reactionTimes ?s = [500]" "totalHits ?s = 1"
    by (simp_all add: gameLoop_keeps demo_after_hit_def)
  with st have "statsTotalHits st = 1" "statsReactionTimes st = [500]"
    "averageReactionTime st = 500"
    by simp_all
  with r demo_ended st(1) show ?thesis by blast
qed

lemma step_Frame_Game:
  assumes "session_inv start s" and "gameState s = Game"
  shows "step rnd s (Frame e nowElapsed nowTime) = Some (gameLoop e nowElapsed nowTime s)"
    "startTime s = start"
  using assms by (simp_all add: session_inv_def)

text \<open>
  Claim C8. In every state \<open>s\<close> of a session whose game loop was started at time \<open>now\<close>:
  while the game is on, a frame that reads the time \<open>nowElapsed\<close> sets the remaining time
  to \<open>max 0 (60 - (nowElapsed - now) / 1000)\<close>; the session stays on and the next frame is
  requested when that is positive, and it ends with no frame requested when that is 0.
  Clicks and mouse moves never change the game state, and once the session has ended no
  event changes the game state or the statistics or requests a frame.
\<close>

theorem session_clock:
  assumes "initializeGame e0 rnd now1 now2 d s0 = Some s1"
    and "run rnd (gameLoopEffect now s1) evs = Some s"
  shows "(gameState s = Game \<or> gameState s = End) \<and>
    (gameState s = Game \<longrightarrow>
       (\<exists>s'. step rnd s (Frame e nowElapsed nowTime) = Some s' \<and>
          timeLeft s' = max 0 (60 - real_of_int (nowElapsed - now) / 1000) \<and>
          (timeLeft s' > 0 \<longrightarrow> gameState s' = Game \<and> frameRequested s') \<and>
          (timeLeft s' = 0 \<longrightarrow> gameState s' = End \<and> \<not> frameRequested s') \<and>
          (gameState s' = End \<longleftrightarrow> timeLeft s' = 0))) \<and>
    (\<forall>e1 clickX clickY nowHit nowSpawn s'.
       step rnd s (Click e1 clickX clickY nowHit nowSpawn) = Some s' \<longrightarrow>
       gameState s' = gameState s) \<and>
    (\<forall>x y s'. step rnd s (MouseMove x y) = Some s' \<longrightarrow> gameState s' = gameState s) \<and>
    (gameState s = End \<longrightarrow>
       (\<forall>ev s'. step rnd s ev = Some s' \<longrightarrow>
          gameState s' = End \<and> gameStats s' = gameStats s \<and> \<not> frameRequested s'))"
proof -
  from session_inv_run [OF session_inv_start [OF assms(1)] assms(2)]
  have inv: "session_inv now s" .
  then have c1: "gameState s = Game \<or> gameState s = End"
    by (simp add: session_inv_def)
  have c2: "\<exists>s'. step rnd s (Frame e nowElapsed nowTime) = Some s' \<and>
          timeLeft s' = max 0 (60 - real_of_int (nowElapsed - now) / 1000) \<and>
          (timeLeft s' > 0 \<longrightarrow> gameState s' = Game \<and> frameRequested s') \<and>
          (timeLeft s' = 0 \<longrightarrow> gameState s' = End \<and> \<not> frameRequested s') \<and>
          (gameState s' = End \<longleftrightarrow> timeLeft s' = 0)" if g: "gameState s = Game"
  proof -
    let ?s' = "gameLoop e nowElapsed nowTime s"
    note fr = step_Frame_Game [OF inv g]
    have t: "timeLeft ?s' = max 0 (60 - real_of_int (nowElapsed - now) / 1000)"
      by (simp only: gameLoop_timeLeft fr(2))
    then have nonneg: "0 \<le> timeLeft ?s'" by simp
    have pos: "gameState ?s' = Game \<and> frameRequested ?s'" if "timeLeft ?s' > 0"
      using gameLoop_running [OF that] g by simp
    have zero: "gameState ?s' = End \<and> \<not> frameRequested ?s'" if "timeLeft ?s' = 0"
    proof -
      from that have "\<not> timeLeft ?s' > 0" by simp
      from gameLoop_ending [OF this] show ?thesis by simp
    qed
    have "gameState ?s' = End \<longleftrightarrow> timeLeft ?s' = 0"
      using pos zero nonneg by (cases "timeLeft ?s' > 0") auto
    with fr(1) t pos zero show ?thesis by blast
  qed
  have c3: "\<forall>e1 clickX clickY nowHit nowSpawn s'.
       step rnd s (Click e1 clickX clickY nowHit nowSpawn) = Some s' \<longrightarrow>
       gameState s' = gameState s"
    by (simp add: handleCanvasClick_keeps)
  have c4: "\<forall>x y s'. step rnd s (MouseMove x y) = Some s' \<longrightarrow> gameState s' = gameState s"
    by (auto simp: handleMouseMove_def)
  have c5: "\<forall>ev s'. step rnd s ev = Some s' \<longrightarrow>
          gameState s' = End \<and> gameStats s' = gameStats s \<and> \<not> frameRequested s'"
    if "gameState s = End"
    using ended_step [OF inv that] by blast
  from c1 c2 c3 c4 c5 show ?thesis by blast
qed

theorem session_clock_witness:
  "\<exists>s s'. run rnd_demo (gameLoopEffect 1000 (demo_session\<lparr>startTime := 0, frameRequested := False\<rparr>))
       [Click screen 730 288 1500 1500, Frame screen 31000 31000] = Some s \<and>
     gameState s = Game \<and> timeLeft s = 30 \<and>
     step rnd_demo s (Frame screen 61000 61000) = Some s' \<and>
     timeLeft s' = 0 \<and> gameState s' = End \<and> \<not> frameRequested s'"
proof -
  let ?s = "gameLoop screen 31000 31000 demo_after_hit"
  have r: "run rnd_demo (gameLoopEffect 1000 (demo_session\<lparr>startTime := 0, frameRequested := False\<rparr>))
     [Click screen 730 288 1500 1500, Frame screen 31000 31000] = Some ?s"
    by (simp only: demo_session_started demo_run_click)
  have t: "timeLeft ?s = 30"
    by (simp add: gameLoop_timeLeft demo_after_hit_def demo_session_def)
  then have "timeLeft ?s > 0" by simp
  from gameLoop_running(1) [OF this] have g: "gameState ?s = Game"
    by (simp add: demo_after_hit_def demo_session_def)
  from session_clock [OF demo_session_built r, of screen 61000 61000] g
  obtain s' where s': "step rnd_demo ?s (Frame screen 61000 61000) = Some s'"
    "timeLeft s' = max 0 (60 - real_of_int (61000 - 1000) / 1000)"
    "timeLeft s' = 0 \<longrightarrow> gameState s' = End \<and> \<not> frameRequested s'"
    by blast
  from s'(2) have "timeLeft s' = 0" by simp
  with r t g s' show ?thesis by blast
qed

subsection \<open>The radius of the live targets\<close>

lemma addNewTarget_radius:
  assumes "addNewTarget e rnd now diff s = Some s'"
    and "\<forall>t \<in> set (targets s). radius t = 190 \<or> radius t = 130"
  shows "\<forall>t \<in> set (targets s'). radius t = 190 \<or> radius t = 130"
proof -
  from addNewTarget_Some [OF assms(1)] obtain x r sz k t where
    loop: "placement_loop (CANVAS_WIDTH e) (case diff of Some d \<Rightarrow> d | None \<Rightarrow> difficulty s) rnd
       (targets s) (randomCalls s) = Some (x, r, sz, k)"
    and t: "targets s' = targets s @ [t]" "radius t = r"
    by auto
  from placement_loop_sound [OF loop] have "r = 190 \<or> r = 130"
    by (simp split: if_splits)
  with t assms(2) show ?thesis by auto
qed

lemma move_target_radius: "radius (move_target w t) = radius t"
  by (simp add: move_target_def Let_def split: option.splits)

lemma oscillate_radius: "radius (oscillate w time t) = radius t"
  by (simp add: oscillate_def Let_def)

lemma gameLoop_radius:
  assumes "\<forall>t \<in> set (targets s). radius t = 190 \<or> radius t = 130"
  shows "\<forall>t \<in> set (targets (gameLoop e nowElapsed nowTime s)). radius t = 190 \<or> radius t = 130"
  using assms
  by (auto simp: gameLoop_def Let_def draw_def move_target_radius oscillate_radius)

lemma handleCanvasClick_radius:
  assumes "handleCanvasClick e rnd clickX clickY nowHit nowSpawn s = Some s'"
    and "\<forall>t \<in> set (targets s). radius t = 190 \<or> radius t = 130"
  shows "\<forall>t \<in> set (targets s'). radius t = 190 \<or> radius t = 130"
proof (cases "gameState s = Game")
  case False
  with handleCanvasClick_keeps(8) [OF assms(1)] assms(2) show ?thesis by simp
next
  case g: True
  show ?thesis
  proof (cases "clickY > NET_Y e")
    case True
    with g assms show ?thesis by (auto simp: handleCanvasClick_def)
  next
    case False
    from handleCanvasClick_cases [OF g False assms(1)] show ?thesis
    proof
      assume "s' = sparkle_loop rnd clickX clickY 0
                 (s\<lparr>feedback := feedback s @
                      [\<lparr>fx = clickX, fy = clickY, ftext = ''MISS'', points = 0, opacity = 1,
                        isMiss = Some True\<rparr>]\<rparr>) \<and>
          (\<forall>i<length (targets s).
              \<not> pointer_distance clickX clickY (targets s ! i) \<le> radius (targets s ! i))"
      with assms(2) show ?thesis by (simp add: sparkle_loop_keeps del: sparkle_loop.simps)
    next
      assume "\<exists>i<length (targets s).
            pointer_distance clickX clickY (targets s ! i) \<le> radius (targets s ! i) \<and>
            addNewTarget e rnd nowSpawn None
              (register_hit nowHit i (pointer_distance clickX clickY (targets s ! i)) s) = Some s'"
      then obtain i where spawn: "addNewTarget e rnd nowSpawn None
              (register_hit nowHit i (pointer_distance clickX clickY (targets s ! i)) s) = Some s'"
        by blast
      have "\<forall>t \<in> set (targets (register_hit nowHit i
                (pointer_distance clickX clickY (targets s ! i)) s)).
              radius t = 190 \<or> radius t = 130"
        using assms(2) by (auto simp: register_hit_fields dest: in_set_takeD in_set_dropD)
      from addNewTarget_radius [OF spawn this] show ?thesis .
    qed
  qed
qed

lemma step_radius:
  assumes "step rnd s ev = Some s'"
    and "\<forall>t \<in> set (targets s). radius t = 190 \<or> radius t = 130"
  shows "\<forall>t \<in> set (targets s'). radius t = 190 \<or> radius t = 130"
proof (cases ev)
  case (Click e clickX clickY nowHit nowSpawn)
  with assms show ?thesis using handleCanvasClick_radius by simp
next
  case (MouseMove x y)
  with assms show ?thesis by (auto simp: handleMouseMove_def)
next
  case (Frame e nowElapsed nowTime)
  show ?thesis
  proof (cases "frameRequested s")
    case True
    with Frame assms(1) have "s' = gameLoop e nowElapsed nowTime s" by simp
    with gameLoop_radius [OF assms(2)] show ?thesis by simp
  next
    case False
    with Frame assms show ?thesis by simp
  qed
qed

lemma run_radius:
  "run rnd s evs = Some s' \<Longrightarrow> \<forall>t \<in> set (targets s). radius t = 190 \<or> radius t = 130 \<Longrightarrow>
   \<forall>t \<in> set (targets s'). radius t = 190 \<or> radius t = 130"
proof (induction evs arbitrary: s)
  case Nil
  then show ?case by simp
next
  case (Cons ev evs)
  from Cons.prems(1) obtain s1 where "step rnd s ev = Some s1" "run rnd s1 evs = Some s'"
    by (auto split: option.splits)
  with Cons.IH step_radius Cons.prems(2) show ?case by blast
qed

lemma initializeGame_radius:
  assumes "initializeGame e rnd now1 now2 d s0 = Some s1"
  shows "\<forall>t \<in> set (targets (gameLoopEffect now s1)). radius t = 190 \<or> radius t = 130"
proof -
  let ?s = "s0\<lparr>difficulty := d, score := 0, timeLeft := 60, targets := [],
                 feedback := [], sparkles := [], nextTargetId := 0, perfectHits := 0,
                 totalHits := 0, mousePos := (0, 0), reactionTimes := []\<rparr>"
  from assms obtain sa sb where
    a: "addNewTarget e rnd now1 (Some d) ?s = Some sa"
    and b: "addNewTarget e rnd now2 (Some d) sa = Some sb"
    and s1: "s1 = sb\<lparr>gameState := Game\<rparr>"
    by (auto simp: initializeGame_def Let_def split: option.splits)
  have "\<forall>t \<in> set (targets ?s). radius t = 190 \<or> radius t = 130" by simp
  from addNewTarget_radius [OF b addNewTarget_radius [OF a this]] s1 show ?thesis
    by (simp add: gameLoopEffect_def)
qed

lemma session_radius:
  assumes "initializeGame e rnd now1 now2 d s0 = Some s1"
    and "run rnd (gameLoopEffect now s1) evs = Some s"
  shows "\<forall>t \<in> set (targets s). radius t = 190 \<or> radius t = 130"
  using run_radius [OF assms(2) initializeGame_radius [OF assms(1)]] .


text \<open>
  Claim C10. In every state of a session, a click that registers a hit (the hit counter
  changes) awards exactly 100 points or between 0 and 95 points, never 96 to 99; the
  feedback event carries the same number of points.
\<close>

theorem awarded_points_range:
  assumes "initializeGame e0 rnd now1 now2 d s0 = Some s1"
    and "run rnd (gameLoopEffect now s1) evs = Some s"
    and "handleCanvasClick e rnd clickX clickY nowHit nowSpawn s = Some s'"
    and "totalHits s' \<noteq> totalHits s"
  shows "(score s' - score s = 100 \<or> (0 \<le> score s' - score s \<and> score s' - score s \<le> 95)) \<and>
         score s' - score s \<notin> {96..99} \<and>
         points (last (feedback s')) = score s' - score s"
proof -
  from assms(4) handleCanvasClick_keeps(8) [OF assms(3)] have g: "gameState s = Game" by auto
  from assms(3,4) g have n: "\<not> clickY > NET_Y e"
    by (auto simp: handleCanvasClick_def)
  from session_radius [OF assms(1,2)] have "\<forall>t \<in> set (targets s). 0 < radius t"
    by auto
  from hit_awards_range [OF g n this assms(3,4)] show ?thesis .
qed

theorem awarded_points_range_witness:
  "initializeGame screen rnd_demo 1000 1000 Easy initial_state =
     Some (demo_session\<lparr>startTime := 0, frameRequested := False\<rparr>) \<and>
   run rnd_demo (gameLoopEffect 1000 (demo_session\<lparr>startTime := 0, frameRequested := False\<rparr>)) [] =
     Some demo_session \<and>
   handleCanvasClick screen rnd_demo 730 288 1500 1500 demo_session = Some demo_after_hit \<and>
   totalHits demo_after_hit \<noteq> totalHits demo_session \<and>
   score demo_after_hit - score demo_session = 100 \<and>
   points (last (feedback demo_after_hit)) = 100"
proof -
  have r: "run rnd_demo (gameLoopEffect 1000 (demo_session\<lparr>startTime := 0, frameRequested := False\<rparr>)) [] =
     Some demo_session"
    by (simp only: demo_session_started run.simps)
  have h: "totalHits demo_after_hit \<noteq> totalHits demo_session"
    by (simp add: demo_session_def demo_after_hit_def)
  have sc: "score demo_after_hit - score demo_session = 100"
    by (simp add: demo_session_def demo_after_hit_def)
  from awarded_points_range [OF demo_session_built r demo_click_hit h]
  have "points (last (feedback demo_after_hit)) = score demo_after_hit - score demo_session"
    by simp
  with sc demo_session_built r demo_click_hit h show ?thesis by simp
qed

end
